theory Spec2Isabelle
  imports Complex_Main
begin

section \<open>Numeric conventions\<close>

text \<open>
  The program computes with \<open>gdouble\<close>.  Every \<open>gdouble\<close> is modelled as a
  \<^typ>\<open>real\<close> and every arithmetic operation as the exact operation on reals
  (rounding is not modelled);
  a \<open>gdouble const *\<close> array is a function from the index to the value read there,
  and an array of per-channel objects is a function from the channel number.
\<close>

text \<open>GLib's \<open>MAX(a, b)\<close> is the macro \<open>(((a) > (b)) ? (a) : (b))\<close>; it is \<open>MAX2\<close> here.\<close>

definition MAX2 :: "real \<Rightarrow> real \<Rightarrow> real" where
  "MAX2 a b = (if a > b then a else b)"

text \<open>
  \<open>pow\<close> of the C library: for an exponent that is a whole number the result is
  the repeated product (also for a negative base), otherwise it is
  \<open>exp (y * ln x)\<close>.
\<close>

definition pow :: "real \<Rightarrow> real \<Rightarrow> real" where
  "pow x y =
     (if y = of_int \<lfloor>y\<rfloor>
      then (if 0 \<le> y then x ^ nat \<lfloor>y\<rfloor> else inverse (x ^ nat \<lfloor>- y\<rfloor>))
      else x powr y)"

definition log10 :: "real \<Rightarrow> real" where
  "log10 x = log 10 x"

text \<open>\<open>trunc\<close> rounds toward zero.\<close>

definition trunc :: "real \<Rightarrow> real" where
  "trunc x = (if 0 \<le> x then of_int \<lfloor>x\<rfloor> else of_int \<lceil>x\<rceil>)"

definition fabs :: "real \<Rightarrow> real" where
  "fabs x = \<bar>x\<bar>"

text \<open>
  \<open>#define FIVE_DB_POWER_FACTOR 3.16227766016838\<close>.  The comparison that uses it is
  not strict, so the constant is the value of the double the literal denotes,
  \<open>0x1.94c583ada5b54p+1\<close>, the double nearest to the decimal
  (\<open>FIVE_DB_POWER_FACTOR_nearest\<close>).
\<close>

definition FIVE_DB_POWER_FACTOR :: real where
  "FIVE_DB_POWER_FACTOR = 0x194C583ADA5B54 / 2 ^ 51"

definition ONE_POINT_FIVE_DB_POWER_FACTOR :: real where
  "ONE_POINT_FIVE_DB_POWER_FACTOR = 1.41253754462275"

definition MAXLAG :: nat where
  "MAXLAG = 256"

section \<open>The objects the MOV kernels read\<close>

text \<open>
  Only the getters that \<open>movs.c\<close> calls are modelled; each record field is what
  the getter of the same name returns.
\<close>

record PeaqEarModel =
  band_count :: nat
  frame_size :: nat
  internal_noise :: "nat \<Rightarrow> real"

record PeaqModulationProcessor =
  ear_model :: PeaqEarModel
  modulation :: "nat \<Rightarrow> real"
  average_loudness :: "nat \<Rightarrow> real"

record PeaqLevelAdapter =
  adapted_ref :: "nat \<Rightarrow> real"
  adapted_test :: "nat \<Rightarrow> real"

text \<open>The state of an ear model for one channel (a \<open>gpointer\<close> in the source).\<close>

record EarModelState =
  excitation :: "nat \<Rightarrow> real"
  power_spectrum :: "nat \<Rightarrow> real"
  weighted_power_spectrum :: "nat \<Rightarrow> real"
  energy_threshold_reached :: bool

datatype PeaqMovAccumMode =
  MODE_AVG | MODE_AVG_LOG | MODE_RMS | MODE_RMS_ASYM | MODE_AVG_WINDOW
  | MODE_FILTERED_MAX | MODE_ADB

text \<open>
  A kernel's effect on an accumulator is the sequence of
  \<open>peaq_movaccum_accumulate (acc, c, val, weight)\<close> calls it makes on it; a call is
  recorded as \<open>(c, val, weight)\<close>, in the order of execution.
\<close>

type_synonym accum_call = "nat \<times> real \<times> real"

section \<open>Noise loudness (\<open>movs.c\<close>)\<close>

text \<open>The body of the loop over the bands in \<open>calc_noise_loudness\<close>.\<close>

definition noise_loudness_step ::
  "real \<Rightarrow> real \<Rightarrow> real \<Rightarrow> PeaqEarModel \<Rightarrow> (nat \<Rightarrow> real) \<Rightarrow> (nat \<Rightarrow> real) \<Rightarrow>
   (nat \<Rightarrow> real) \<Rightarrow> (nat \<Rightarrow> real) \<Rightarrow> nat \<Rightarrow> real \<Rightarrow> real" where
  "noise_loudness_step alpha thres_fac S0 em ref_modulation test_modulation
     ref_excitation test_excitation i noise_loudness =
     (let sref = thres_fac * ref_modulation i + S0;
          stest = thres_fac * test_modulation i + S0;
          ethres = internal_noise em i;
          ep_ref = ref_excitation i;
          ep_test = test_excitation i;
          beta = exp (- alpha * (ep_test - ep_ref) / ep_ref)
      in noise_loudness +
         pow (ethres / stest) 0.23 *
         (pow (1 + MAX2 (stest * ep_test - sref * ep_ref) 0 /
                 (ethres + sref * ep_ref * beta)) 0.23 - 1))"

definition calc_noise_loudness ::
  "real \<Rightarrow> real \<Rightarrow> real \<Rightarrow> real \<Rightarrow> PeaqModulationProcessor \<Rightarrow> PeaqModulationProcessor \<Rightarrow>
   (nat \<Rightarrow> real) \<Rightarrow> (nat \<Rightarrow> real) \<Rightarrow> real" where
  "calc_noise_loudness alpha thres_fac S0 NLmin ref_mod_proc test_mod_proc
     ref_excitation test_excitation =
     (let em = ear_model ref_mod_proc;
          ref_modulation = modulation ref_mod_proc;
          test_modulation = modulation test_mod_proc;
          noise_loudness =
            fold (noise_loudness_step alpha thres_fac S0 em ref_modulation test_modulation
                    ref_excitation test_excitation)
              [0..<band_count em] 0;
          noise_loudness = noise_loudness * (24 / real (band_count em))
      in if noise_loudness < NLmin then 0 else noise_loudness)"

text \<open>
  \<open>peaq_mov_lin_dist\<close>.  The first argument is the compile-time switch
  \<open>SWAP_MOD_PATTS_FOR_NOISE_LOUDNESS_MOVS\<close>; \<open>channels\<close> is what
  \<open>peaq_movaccum_get_channels (mov_accum)\<close> returns.
\<close>

definition peaq_mov_lin_dist ::
  "bool \<Rightarrow> (nat \<Rightarrow> PeaqModulationProcessor) \<Rightarrow> (nat \<Rightarrow> PeaqModulationProcessor) \<Rightarrow>
   (nat \<Rightarrow> PeaqLevelAdapter) \<Rightarrow> (nat \<Rightarrow> EarModelState) \<Rightarrow> nat \<Rightarrow> accum_call list" where
  "peaq_mov_lin_dist SWAP_MOD_PATTS ref_mod_proc test_mod_proc level state channels =
     fold (\<lambda>c calls.
        let ref_adapted_excitation = adapted_ref (level c);
            ref_excitation = excitation (state c);
            noise_loudness =
              (if SWAP_MOD_PATTS
               then calc_noise_loudness 1.5 0.15 1 0 (ref_mod_proc c) (ref_mod_proc c)
                      ref_adapted_excitation ref_excitation
               else calc_noise_loudness 1.5 0.15 1 0 (ref_mod_proc c) (test_mod_proc c)
                      ref_adapted_excitation ref_excitation)
        in calls @ [(c, noise_loudness, 1)])
       [0..<channels] []"

text \<open>
  The helper of the specification: the sum over the bands, scaled by \<open>24 / Z\<close>,
  before the comparison with \<open>NLmin\<close>.
\<close>

definition spec_scaled_noise_loudness ::
  "real \<Rightarrow> real \<Rightarrow> real \<Rightarrow> nat \<Rightarrow> (nat \<Rightarrow> real) \<Rightarrow> (nat \<Rightarrow> real) \<Rightarrow> (nat \<Rightarrow> real) \<Rightarrow>
   (nat \<Rightarrow> real) \<Rightarrow> (nat \<Rightarrow> real) \<Rightarrow> real" where
  "spec_scaled_noise_loudness alpha thresFac S0 Z eT modRef modTest excRef excTest =
     (\<Sum>k<Z.
        (eT k / (thresFac * modTest k + S0)) powr 0.23 *
        ((1 + max ((thresFac * modTest k + S0) * excTest k
                    - (thresFac * modRef k + S0) * excRef k) 0 /
              (eT k + (thresFac * modRef k + S0) * excRef k *
                 exp (- alpha * (excTest k - excRef k) / excRef k))) powr 0.23 - 1))
     * (24 / real Z)"

section \<open>Bandwidth (\<open>movs.c\<close>)\<close>








section \<open>Noise-to-mask ratio (\<open>movs.c\<close>)\<close>

text \<open>
  The FFT based ear model adds the masking difference and the grouping of a
  spectrum into bands, which is not part of \<open>movs.c\<close> and is a field here.
\<close>

record PeaqFFTEarModel = PeaqEarModel +
  masking_difference :: "nat \<Rightarrow> real"
  group_into_bands :: "(nat \<Rightarrow> real) \<Rightarrow> (nat \<Rightarrow> real)"

text \<open>
  The noise spectrum; the loop writes the bins below \<open>frame_size / 2 + 1\<close> and the
  others are left as they were (0 here).
\<close>

definition noise_spectrum_of :: "nat \<Rightarrow> (nat \<Rightarrow> real) \<Rightarrow> (nat \<Rightarrow> real) \<Rightarrow> nat \<Rightarrow> real" where
  "noise_spectrum_of fsize ref_weighted_power_spectrum test_weighted_power_spectrum i =
     (if i < fsize div 2 + 1
      then ref_weighted_power_spectrum i
           - 2 * sqrt (ref_weighted_power_spectrum i * test_weighted_power_spectrum i)
           + test_weighted_power_spectrum i
      else 0)"

text \<open>The loop over the bands: the state is \<open>(nmr, nmr_max)\<close>.\<close>

definition nmr_step ::
  "(nat \<Rightarrow> real) \<Rightarrow> (nat \<Rightarrow> real) \<Rightarrow> (nat \<Rightarrow> real) \<Rightarrow> nat \<Rightarrow> real \<times> real \<Rightarrow> real \<times> real" where
  "nmr_step ref_excitation masking_diff noise_in_bands i st =
     (let nmr = fst st; nmr_max = snd st;
          mask = ref_excitation i / masking_diff i;
          curr_nmr = noise_in_bands i / mask;
          nmr = nmr + curr_nmr
      in (nmr, if curr_nmr > nmr_max then curr_nmr else nmr_max))"

text \<open>
  \<open>peaq_mov_nmr\<close>: returns the calls on \<open>mov_accum_nmr\<close> and those on
  \<open>mov_accum_rel_dist_frames\<close>.  \<open>channels\<close> and \<open>mode\<close> are what
  \<open>peaq_movaccum_get_channels\<close> and \<open>peaq_movaccum_get_mode\<close> return for
  \<open>mov_accum_nmr\<close>; \<open>rel_dist_frames\<close> is false for a NULL
  \<open>mov_accum_rel_dist_frames\<close>.
\<close>

definition peaq_mov_nmr ::
  "'a PeaqFFTEarModel_scheme \<Rightarrow> (nat \<Rightarrow> EarModelState) \<Rightarrow> (nat \<Rightarrow> EarModelState) \<Rightarrow>
   nat \<Rightarrow> PeaqMovAccumMode \<Rightarrow> bool \<Rightarrow> accum_call list \<times> accum_call list" where
  "peaq_mov_nmr em ref_state test_state channels mode rel_dist_frames =
     fold (\<lambda>c (calls_nmr, calls_rdf).
        let ref_excitation = excitation (ref_state c);
            noise_spectrum =
              noise_spectrum_of (frame_size em) (weighted_power_spectrum (ref_state c))
                (weighted_power_spectrum (test_state c));
            noise_in_bands = group_into_bands em noise_spectrum;
            st = fold (nmr_step ref_excitation (masking_difference em) noise_in_bands)
                   [0..<band_count em] (0, 0);
            nmr = fst st / real (band_count em);
            nmr_max = snd st;
            calls_nmr =
              (if mode = MODE_AVG_LOG then calls_nmr @ [(c, nmr, 1)]
               else calls_nmr @ [(c, 10 * log10 nmr, 1)]);
            calls_rdf =
              (if rel_dist_frames
               then calls_rdf @
                    [(c, if nmr_max > ONE_POINT_FIVE_DB_POWER_FACTOR then 1 else 0, 1)]
               else calls_rdf)
        in (calls_nmr, calls_rdf))
       [0..<channels] ([], [])"

text \<open>The band-wise noise-to-mask ratio of the specification, for one channel.\<close>

definition spec_curr_nmr ::
  "'a PeaqFFTEarModel_scheme \<Rightarrow> EarModelState \<Rightarrow> EarModelState \<Rightarrow> nat \<Rightarrow> real" where
  "spec_curr_nmr em ref_st test_st k =
     group_into_bands em
       (noise_spectrum_of (frame_size em) (weighted_power_spectrum ref_st)
          (weighted_power_spectrum test_st)) k
     / (excitation ref_st k / masking_difference em k)"

definition spec_nmr ::
  "'a PeaqFFTEarModel_scheme \<Rightarrow> EarModelState \<Rightarrow> EarModelState \<Rightarrow> real" where
  "spec_nmr em ref_st test_st =
     (\<Sum>k<band_count em. spec_curr_nmr em ref_st test_st k) / real (band_count em)"

definition spec_nmr_max ::
  "'a PeaqFFTEarModel_scheme \<Rightarrow> EarModelState \<Rightarrow> EarModelState \<Rightarrow> real" where
  "spec_nmr_max em ref_st test_st =
     Max (spec_curr_nmr em ref_st test_st ` {..<band_count em})"

section \<open>Detection probability (\<open>movs.c\<close>)\<close>

text \<open>
  The body of the loop over the channels for band \<open>i\<close>; the state is
  \<open>(detection_probability, detection_steps)\<close>.  \<open>USE_FLOOR\<close> is the compile-time
  switch \<open>USE_FLOOR_FOR_STEPS_ABOVE_THRESHOLD\<close>.
\<close>

definition detection_step ::
  "bool \<Rightarrow> (nat \<Rightarrow> EarModelState) \<Rightarrow> (nat \<Rightarrow> EarModelState) \<Rightarrow> nat \<Rightarrow> nat \<Rightarrow>
   real \<times> real \<Rightarrow> real \<times> real" where
  "detection_step USE_FLOOR ref_state test_state i c st =
     (let detection_probability = fst st; detection_steps = snd st;
          ref_excitation = excitation (ref_state c);
          test_excitation = excitation (test_state c);
          eref_db = 10 * log10 (ref_excitation i);
          etest_db = 10 * log10 (test_excitation i);
          l = 0.3 * MAX2 eref_db etest_db + 0.7 * etest_db;
          s = (if l > 0
               then 5.95072 * pow (6.39468 / l) 1.71332 +
                    9.01033 / 10 ^ 11 * pow l 4 + 5.05622 / 10 ^ 6 * pow l 3 -
                    0.00102438 * l * l + 0.0550197 * l - 0.198719
               else 10 ^ 30);
          e = eref_db - etest_db;
          b = (if eref_db > etest_db then 4 else 6);
          pc = 1 - pow 0.5 (pow (e / s) b);
          qc = (if USE_FLOOR then fabs (of_int \<lfloor>e\<rfloor>) / s else fabs (trunc e) / s)
      in (if pc > detection_probability then pc else detection_probability,
          if c = 0 \<or> qc > detection_steps then qc else detection_steps))"

text \<open>
  The body of the loop over the bands; the state is
  \<open>(binaural_detection_probability, binaural_detection_steps)\<close>.
\<close>

definition binaural_step ::
  "bool \<Rightarrow> (nat \<Rightarrow> EarModelState) \<Rightarrow> (nat \<Rightarrow> EarModelState) \<Rightarrow> nat \<Rightarrow> nat \<Rightarrow>
   real \<times> real \<Rightarrow> real \<times> real" where
  "binaural_step USE_FLOOR ref_state test_state channels i st =
     (let d = fold (detection_step USE_FLOOR ref_state test_state i) [0..<channels] (0, 0)
      in (fst st * (1 - fst d), snd st + snd d))"

text \<open>
  \<open>peaq_mov_prob_detect\<close>: returns the calls on \<open>mov_accum_adb\<close> and those on
  \<open>mov_accum_mfpd\<close>.
\<close>

definition peaq_mov_prob_detect ::
  "bool \<Rightarrow> 'a PeaqEarModel_scheme \<Rightarrow> (nat \<Rightarrow> EarModelState) \<Rightarrow> (nat \<Rightarrow> EarModelState) \<Rightarrow>
   nat \<Rightarrow> accum_call list \<times> accum_call list" where
  "peaq_mov_prob_detect USE_FLOOR em ref_state test_state channels =
     (let st = fold (binaural_step USE_FLOOR ref_state test_state channels)
                 [0..<band_count em] (1, 0);
          binaural_detection_steps = snd st;
          binaural_detection_probability = 1 - fst st
      in (if binaural_detection_probability > 0.5
          then [(0, binaural_detection_steps, 1)] else [],
          [(0, binaural_detection_probability, 1)]))"

text \<open>The per-band, per-channel quantities of the specification, in its words.\<close>

definition spec_dB :: "real \<Rightarrow> real" where
  "spec_dB x = 10 * log 10 x"

definition spec_L :: "real \<Rightarrow> real \<Rightarrow> real" where
  "spec_L Er Et = 0.3 * max (spec_dB Er) (spec_dB Et) + 0.7 * spec_dB Et"

definition spec_s :: "real \<Rightarrow> real" where
  "spec_s L =
     (if L \<le> 0 then 10 ^ 30
      else 5.95072 * (6.39468 / L) powr 1.71332
           + 9.01033 / 10 ^ 11 * L ^ 4 + 5.05622 / 10 ^ 6 * L ^ 3
           - 0.00102438 * L ^ 2 + 0.0550197 * L - 0.198719)"

definition spec_e :: "real \<Rightarrow> real \<Rightarrow> real" where
  "spec_e Er Et = spec_dB Er - spec_dB Et"

definition spec_b :: "real \<Rightarrow> real \<Rightarrow> nat" where
  "spec_b Er Et = (if spec_dB Er > spec_dB Et then 4 else 6)"

definition spec_p_c :: "real \<Rightarrow> real \<Rightarrow> real" where
  "spec_p_c Er Et = 1 - 0.5 powr ((spec_e Er Et / spec_s (spec_L Er Et)) ^ spec_b Er Et)"

definition spec_q_c :: "real \<Rightarrow> real \<Rightarrow> real" where
  "spec_q_c Er Et =
     \<bar>if 0 \<le> spec_e Er Et then of_int \<lfloor>spec_e Er Et\<rfloor> else of_int \<lceil>spec_e Er Et\<rceil>\<bar>
     / spec_s (spec_L Er Et)"

definition spec_p_bin :: "(nat \<Rightarrow> EarModelState) \<Rightarrow> (nat \<Rightarrow> EarModelState) \<Rightarrow> nat \<Rightarrow> nat \<Rightarrow> real" where
  "spec_p_bin ref_state test_state channels k =
     Max ((\<lambda>c. spec_p_c (excitation (ref_state c) k) (excitation (test_state c) k))
            ` {..<channels})"

definition spec_q_bin :: "(nat \<Rightarrow> EarModelState) \<Rightarrow> (nat \<Rightarrow> EarModelState) \<Rightarrow> nat \<Rightarrow> nat \<Rightarrow> real" where
  "spec_q_bin ref_state test_state channels k =
     Max ((\<lambda>c. spec_q_c (excitation (ref_state c) k) (excitation (test_state c) k))
            ` {..<channels})"

definition spec_P_bin :: "(nat \<Rightarrow> EarModelState) \<Rightarrow> (nat \<Rightarrow> EarModelState) \<Rightarrow> nat \<Rightarrow> nat \<Rightarrow> real" where
  "spec_P_bin ref_state test_state channels Z =
     1 - (\<Prod>k<Z. 1 - spec_p_bin ref_state test_state channels k)"

definition spec_Q_bin :: "(nat \<Rightarrow> EarModelState) \<Rightarrow> (nat \<Rightarrow> EarModelState) \<Rightarrow> nat \<Rightarrow> nat \<Rightarrow> real" where
  "spec_Q_bin ref_state test_state channels Z =
     (\<Sum>k<Z. spec_q_bin ref_state test_state channels k)"

text \<open>Every excitation value of the frame is strictly positive.\<close>

definition positive_excitations ::
  "(nat \<Rightarrow> EarModelState) \<Rightarrow> (nat \<Rightarrow> EarModelState) \<Rightarrow> nat \<Rightarrow> nat \<Rightarrow> bool" where
  "positive_excitations ref_state test_state channels Z \<longleftrightarrow>
     (\<forall>c<channels. \<forall>k<Z. 0 < excitation (ref_state c) k \<and> 0 < excitation (test_state c) k)"

section \<open>Error harmonic structure (\<open>movs.c\<close>)\<close>

text \<open>
  The transforms \<open>gst_fft_f64_fft\<close> and \<open>gst_fft_f64_inverse_fft\<close> belong to
  GStreamer and are parameters: \<open>fft len\<close> maps \<open>len\<close> real samples to
  \<open>len / 2 + 1\<close> complex bins, \<open>inverse_fft len\<close> maps them back.
  A \<open>GstFFTF64Complex\<close> with fields \<open>r\<close> and \<open>i\<close> is a \<^typ>\<open>complex\<close>.
\<close>

type_synonym gst_fft = "nat \<Rightarrow> (nat \<Rightarrow> real) \<Rightarrow> nat \<Rightarrow> complex"
type_synonym gst_inverse_fft = "nat \<Rightarrow> (nat \<Rightarrow> complex) \<Rightarrow> nat \<Rightarrow> real"

text \<open>
  \<open>correlation_window[i]\<close>; \<open>CENTER\<close> is the compile-time switch
  \<open>CENTER_EHS_CORRELATION_WINDOW\<close>.
\<close>

definition correlation_window :: "bool \<Rightarrow> nat \<Rightarrow> real" where
  "correlation_window CENTER i =
     (if CENTER
      then 0.81649658092773 * (1 + cos (2 * pi * real i / real (2 * MAXLAG - 1))) / real MAXLAG
      else 0.81649658092773 * (1 - cos (2 * pi * real i / real (MAXLAG - 1))) / real MAXLAG)"

definition do_xcorr :: "gst_fft \<Rightarrow> gst_inverse_fft \<Rightarrow> (nat \<Rightarrow> real) \<Rightarrow> nat \<Rightarrow> real" where
  "do_xcorr fft inverse_fft d =
     (let timedata = (\<lambda>k. if k < 2 * MAXLAG then d k else 0);
          freqdata1 = fft (2 * MAXLAG) timedata;
          timedata = (\<lambda>k. if MAXLAG \<le> k \<and> k < 2 * MAXLAG then 0 else timedata k);
          freqdata2 = fft (2 * MAXLAG) timedata;
          freqdata1 =
            (\<lambda>k. if k < MAXLAG + 1
                 then Complex
                        ((Re (freqdata1 k) * Re (freqdata2 k)
                          + Im (freqdata1 k) * Im (freqdata2 k)) / real (2 * MAXLAG))
                        ((Re (freqdata2 k) * Im (freqdata1 k)
                          - Re (freqdata1 k) * Im (freqdata2 k)) / real (2 * MAXLAG))
                 else freqdata1 k);
          timedata = inverse_fft (2 * MAXLAG) freqdata1
      in (\<lambda>i. if i < MAXLAG then timedata i else 0))"

text \<open>\<open>d[i]\<close>, the logarithm of the ratio of the weighted power spectra.\<close>

definition ehs_d :: "(nat \<Rightarrow> real) \<Rightarrow> (nat \<Rightarrow> real) \<Rightarrow> nat \<Rightarrow> real" where
  "ehs_d ref_power_spectrum test_power_spectrum i =
     (let fref = ref_power_spectrum i; ftest = test_power_spectrum i
      in if fref = 0 \<and> ftest = 0 then 0 else ln (ftest / fref))"

text \<open>
  The normalisation loop without \<open>EHS_SUBTRACT_DC_BEFORE_WINDOW\<close>; the state is
  \<open>(c, dk)\<close>.
\<close>

definition ehs_window_step ::
  "(nat \<Rightarrow> real) \<Rightarrow> (nat \<Rightarrow> real) \<Rightarrow> real \<Rightarrow> nat \<Rightarrow> (nat \<Rightarrow> real) \<times> real \<Rightarrow>
   (nat \<Rightarrow> real) \<times> real" where
  "ehs_window_step window d d0 i st =
     (let c = fst st; dk = snd st
      in (c(i := c i * (window i / sqrt (d0 * dk))),
          dk + (d (i + MAXLAG) * d (i + MAXLAG) - d i * d i)))"

text \<open>
  The normalisation loop with \<open>EHS_SUBTRACT_DC_BEFORE_WINDOW\<close>; the state is
  \<open>(c, cavg, dk)\<close>.
\<close>

definition ehs_normalise_step ::
  "(nat \<Rightarrow> real) \<Rightarrow> real \<Rightarrow> nat \<Rightarrow> (nat \<Rightarrow> real) \<times> real \<times> real \<Rightarrow>
   (nat \<Rightarrow> real) \<times> real \<times> real" where
  "ehs_normalise_step d d0 i st =
     (let c = fst st; cavg = fst (snd st); dk = snd (snd st);
          c = c(i := c i / sqrt (d0 * dk))
      in (c, cavg + c i, dk + (d (i + MAXLAG) * d (i + MAXLAG) - d i * d i)))"

text \<open>The scan for the peak; the state is \<open>(s, ehs)\<close>.\<close>

definition ehs_peak_step :: "(nat \<Rightarrow> complex) \<Rightarrow> nat \<Rightarrow> real \<times> real \<Rightarrow> real \<times> real" where
  "ehs_peak_step c_fft i st =
     (let s = fst st; ehs = snd st;
          new_s = Re (c_fft i) * Re (c_fft i) + Im (c_fft i) * Im (c_fft i)
      in (new_s, if new_s > s \<and> new_s > ehs then new_s else ehs))"

text \<open>
  The body of the second loop over the channels of \<open>peaq_mov_ehs\<close>, up to the
  value \<open>ehs\<close>.  \<open>SUBTRACT_DC\<close> is \<open>EHS_SUBTRACT_DC_BEFORE_WINDOW\<close>.
\<close>

definition ehs_channel ::
  "bool \<Rightarrow> bool \<Rightarrow> gst_fft \<Rightarrow> gst_inverse_fft \<Rightarrow> EarModelState \<Rightarrow> EarModelState \<Rightarrow> real" where
  "ehs_channel CENTER SUBTRACT_DC fft inverse_fft ref_st test_st =
     (let ref_power_spectrum = weighted_power_spectrum ref_st;
          test_power_spectrum = weighted_power_spectrum test_st;
          d = ehs_d ref_power_spectrum test_power_spectrum;
          c = do_xcorr fft inverse_fft d;
          d0 = c 0;
          dk = d0;
          c = (if SUBTRACT_DC
               then let st = fold (ehs_normalise_step d d0) [0..<MAXLAG] (c, 0, dk);
                        c = fst st;
                        cavg = fst (snd st) / real MAXLAG
                    in (\<lambda>i. if i < MAXLAG then (c i - cavg) * correlation_window CENTER i
                             else c i)
               else fst (fold (ehs_window_step (correlation_window CENTER) d d0)
                           [0..<MAXLAG] (c, dk)));
          c_fft = fft MAXLAG c;
          c_fft = (if SUBTRACT_DC then c_fft else c_fft(0 := Complex 0 (Im (c_fft 0))));
          s = Re (c_fft 0) * Re (c_fft 0) + Im (c_fft 0) * Im (c_fft 0)
      in snd (fold (ehs_peak_step c_fft) [1..<MAXLAG div 2 + 1] (s, 0)))"

text \<open>
  \<open>peaq_mov_ehs\<close>: returns the calls on \<open>mov_accum\<close>; \<open>channels\<close> is
  \<open>peaq_movaccum_get_channels (mov_accum)\<close>.
\<close>

definition peaq_mov_ehs ::
  "bool \<Rightarrow> bool \<Rightarrow> gst_fft \<Rightarrow> gst_inverse_fft \<Rightarrow> (nat \<Rightarrow> EarModelState) \<Rightarrow>
   (nat \<Rightarrow> EarModelState) \<Rightarrow> nat \<Rightarrow> accum_call list" where
  "peaq_mov_ehs CENTER SUBTRACT_DC fft inverse_fft ref_state test_state channels =
     (let ehs_valid =
            fold (\<lambda>chan ehs_valid.
                    if energy_threshold_reached (ref_state chan) \<or>
                       energy_threshold_reached (test_state chan)
                    then True else ehs_valid)
              [0..<channels] False
      in if \<not> ehs_valid then []
         else fold (\<lambda>chan calls.
                 let ehs = ehs_channel CENTER SUBTRACT_DC fft inverse_fft
                             (ref_state chan) (test_state chan)
                 in calls @ [(chan, 1000 * ehs, 1)])
                [0..<channels] [])"

section \<open>The accumulator\<close>

text \<open>
  Modelled from the spec: the implementation of \<open>PeaqMovAccum\<close>
  (\<open>peaq_movaccum_new\<close>, \<open>peaq_movaccum_set_channels\<close>, \<open>peaq_movaccum_set_mode\<close>,
  \<open>peaq_movaccum_set_tentative\<close>, \<open>peaq_movaccum_accumulate\<close> and
  \<open>peaq_movaccum_get_value\<close>, file \<open>movaccum.c\<close>) is missing; \<open>movaccum.h\<close> gives
  the modes, the formulas and the signatures.  The per-channel state holds, for each
  mode, the running quantities the specification lists.
\<close>

record chan_state =
  sum_wx :: real      \<comment> \<open>sum of w x (AVG, AVG_LOG, ADB), of squared w x (RMS), of squared x (RMS_ASYM)\<close>
  sum_w :: real       \<comment> \<open>sum of w (AVG, AVG_LOG, ADB), of squared w (RMS, RMS_ASYM)\<close>
  count :: nat        \<comment> \<open>N, the number of accumulations (RMS_ASYM)\<close>
  fifo :: "real list" \<comment> \<open>the last three square roots, newest first (AVG_WINDOW)\<close>
  win_sum :: real     \<comment> \<open>sum of the windowed fourth powers (AVG_WINDOW)\<close>
  win_count :: nat    \<comment> \<open>M, the number of valid windows (AVG_WINDOW)\<close>
  filt_y :: real      \<comment> \<open>the IIR scalar y (FILTERED_MAX)\<close>
  filt_max :: real    \<comment> \<open>the largest y so far (FILTERED_MAX)\<close>

text \<open>Modelled from the spec: the state of a channel of an empty accumulator.\<close>

definition chan_state_init :: chan_state where
  "chan_state_init =
     \<lparr>sum_wx = 0, sum_w = 0, count = 0, fifo = [], win_sum = 0, win_count = 0,
      filt_y = 0, filt_max = 0\<rparr>"

text \<open>Modelled from the spec: folding one sample \<open>(x, w)\<close> into a channel's state.\<close>

fun accumulate_chan :: "PeaqMovAccumMode \<Rightarrow> chan_state \<Rightarrow> real \<Rightarrow> real \<Rightarrow> chan_state" where
  "accumulate_chan MODE_AVG st x w = st\<lparr>sum_wx := sum_wx st + w * x, sum_w := sum_w st + w\<rparr>"
| "accumulate_chan MODE_AVG_LOG st x w =
     st\<lparr>sum_wx := sum_wx st + w * x, sum_w := sum_w st + w\<rparr>"
| "accumulate_chan MODE_RMS st x w =
     st\<lparr>sum_wx := sum_wx st + w\<^sup>2 * x\<^sup>2, sum_w := sum_w st + w\<^sup>2\<rparr>"
| "accumulate_chan MODE_RMS_ASYM st x w =
     st\<lparr>sum_wx := sum_wx st + x\<^sup>2, sum_w := sum_w st + w\<^sup>2, count := count st + 1\<rparr>"
| "accumulate_chan MODE_AVG_WINDOW st x w =
     (let r = sqrt x;
          st = (if length (fifo st) \<ge> 3
                then st\<lparr>win_sum := win_sum st + ((r + sum_list (fifo st)) / 4) ^ 4,
                        win_count := win_count st + 1\<rparr>
                else st)
      in st\<lparr>fifo := take 3 (r # fifo st)\<rparr>)"
| "accumulate_chan MODE_FILTERED_MAX st x w =
     (let y = 0.9 * filt_y st + 0.1 * x
      in st\<lparr>filt_y := y, filt_max := max (filt_max st) y\<rparr>)"
| "accumulate_chan MODE_ADB st x w =
     st\<lparr>sum_wx := sum_wx st + w * x, sum_w := sum_w st + w\<rparr>"

text \<open>Modelled from the spec: the per-channel result of the table of formulas.\<close>

fun chan_value :: "PeaqMovAccumMode \<Rightarrow> chan_state \<Rightarrow> real" where
  "chan_value MODE_AVG st = sum_wx st / sum_w st"
| "chan_value MODE_AVG_LOG st = 10 * log 10 (sum_wx st / sum_w st)"
| "chan_value MODE_RMS st = sqrt (sum_wx st / sum_w st)"
| "chan_value MODE_RMS_ASYM st =
     sqrt (sum_wx st / real (count st)) + 1 / 2 * sqrt (sum_w st / real (count st))"
| "chan_value MODE_AVG_WINDOW st =
     (if win_count st = 0 then 0 else sqrt (win_sum st / real (win_count st)))"
| "chan_value MODE_FILTERED_MAX st = filt_max st"
| "chan_value MODE_ADB st =
     (if sum_w st = 0 then 0
      else if sum_wx st = 0 then - 0.5
      else log 10 (sum_wx st / sum_w st))"

text \<open>
  Modelled from the spec: the accumulator object.  Its mode and its channel count are
  \<open>None\<close> until they are set; \<open>committed\<close> and \<open>shadow\<close> hold one state per
  channel.
\<close>

record PeaqMovAccum =
  acc_mode :: "PeaqMovAccumMode option"
  acc_channels :: "nat option"
  tentative :: bool
  committed :: "chan_state list"
  shadow :: "chan_state list"

text \<open>Modelled from the spec: the contract violations of \<open>accumulate\<close>.\<close>

datatype accum_error = NotConfigured | ChannelOutOfRange

text \<open>Modelled from the spec: accumulators are created empty and unconfigured.\<close>

definition peaq_movaccum_new :: PeaqMovAccum where
  "peaq_movaccum_new =
     \<lparr>acc_mode = None, acc_channels = None, tentative = False, committed = [], shadow = []\<rparr>"

text \<open>
  Modelled from the spec: \<open>set_channels\<close> fixes the channel count and allocates
  the per-channel state.
\<close>

definition peaq_movaccum_set_channels :: "PeaqMovAccum \<Rightarrow> nat \<Rightarrow> PeaqMovAccum" where
  "peaq_movaccum_set_channels acc C =
     acc\<lparr>acc_channels := Some C, committed := replicate C chan_state_init,
         shadow := replicate C chan_state_init\<rparr>"

text \<open>Modelled from the spec: \<open>set_mode\<close> sets the reduction mode.\<close>

definition peaq_movaccum_set_mode :: "PeaqMovAccum \<Rightarrow> PeaqMovAccumMode \<Rightarrow> PeaqMovAccum" where
  "peaq_movaccum_set_mode acc m = acc\<lparr>acc_mode := Some m\<rparr>"

text \<open>
  Modelled from the spec: setting the flag copies the committed state into the
  shadow; clearing it promotes the shadow to the committed state.
\<close>

definition peaq_movaccum_set_tentative :: "PeaqMovAccum \<Rightarrow> bool \<Rightarrow> PeaqMovAccum" where
  "peaq_movaccum_set_tentative acc b =
     (if b then acc\<lparr>tentative := True, shadow := committed acc\<rparr>
      else if tentative acc then acc\<lparr>tentative := False, committed := shadow acc\<rparr>
      else acc)"

text \<open>
  Modelled from the spec: accumulating before the mode or the channels are set,
  or into a channel that does not exist, fails; otherwise the sample goes into the
  shadow when the flag is set and into the committed state when it is not.
\<close>

definition peaq_movaccum_accumulate ::
  "PeaqMovAccum \<Rightarrow> nat \<Rightarrow> real \<Rightarrow> real \<Rightarrow> accum_error + PeaqMovAccum" where
  "peaq_movaccum_accumulate acc c val weight =
     (case (acc_mode acc, acc_channels acc) of
        (Some m, Some C) \<Rightarrow>
          if c \<ge> C then Inl ChannelOutOfRange
          else if tentative acc
          then Inr (acc\<lparr>shadow := (shadow acc)[c := accumulate_chan m (shadow acc ! c) val weight]\<rparr>)
          else Inr (acc\<lparr>committed :=
                         (committed acc)[c := accumulate_chan m (committed acc ! c) val weight]\<rparr>)
      | _ \<Rightarrow> Inl NotConfigured)"

text \<open>
  Modelled from the spec: the mean of the per-channel results, except that
  FILTERED_MAX and ADB use channel 0 only.
\<close>

definition peaq_movaccum_get_value :: "PeaqMovAccum \<Rightarrow> accum_error + real" where
  "peaq_movaccum_get_value acc =
     (case (acc_mode acc, acc_channels acc) of
        (Some m, Some C) \<Rightarrow>
          if m = MODE_FILTERED_MAX \<or> m = MODE_ADB
          then Inr (chan_value m (committed acc ! 0))
          else Inr (sum_list (map (chan_value m) (committed acc)) / real C)
      | _ \<Rightarrow> Inl NotConfigured)"

text \<open>A sequence of \<open>accumulate\<close> calls, stopping at the first failure.\<close>

fun accumulate_all :: "PeaqMovAccum \<Rightarrow> accum_call list \<Rightarrow> accum_error + PeaqMovAccum" where
  "accumulate_all acc [] = Inr acc"
| "accumulate_all acc ((c, val, weight) # calls) =
     (case peaq_movaccum_accumulate acc c val weight of
        Inl e \<Rightarrow> Inl e
      | Inr acc' \<Rightarrow> accumulate_all acc' calls)"

text \<open>
  The two runs the tentative mechanism is compared on: \<open>accumulate (P)\<close>,
  \<open>set_tentative (true)\<close>, \<open>accumulate (T)\<close>, \<open>set_tentative (false)\<close>,
  \<open>get_value ()\<close>; and \<open>accumulate (P + T)\<close>, \<open>get_value ()\<close>.
\<close>

definition tentative_run ::
  "PeaqMovAccum \<Rightarrow> accum_call list \<Rightarrow> accum_call list \<Rightarrow> accum_error + real" where
  "tentative_run acc P T =
     (case accumulate_all acc P of
        Inl e \<Rightarrow> Inl e
      | Inr acc1 \<Rightarrow>
          (case accumulate_all (peaq_movaccum_set_tentative acc1 True) T of
             Inl e \<Rightarrow> Inl e
           | Inr acc2 \<Rightarrow> peaq_movaccum_get_value (peaq_movaccum_set_tentative acc2 False)))"

definition direct_run :: "PeaqMovAccum \<Rightarrow> accum_call list \<Rightarrow> accum_error + real" where
  "direct_run acc calls =
     (case accumulate_all acc calls of
        Inl e \<Rightarrow> Inl e
      | Inr acc1 \<Rightarrow> peaq_movaccum_get_value acc1)"

text \<open>An accumulator that has been created and configured, before any sample.\<close>

definition configured :: "nat \<Rightarrow> PeaqMovAccumMode \<Rightarrow> PeaqMovAccum" where
  "configured C m = peaq_movaccum_set_mode (peaq_movaccum_set_channels peaq_movaccum_new C) m"

text \<open>The sums of the table of formulas over the samples of one channel.\<close>

definition sum_weighted :: "nat \<Rightarrow> accum_call list \<Rightarrow> real" where
  "sum_weighted c calls = (\<Sum>(c', x, w)\<leftarrow>filter (\<lambda>call. fst call = c) calls. w * x)"

definition sum_weights :: "nat \<Rightarrow> accum_call list \<Rightarrow> real" where
  "sum_weights c calls = (\<Sum>(c', x, w)\<leftarrow>filter (\<lambda>call. fst call = c) calls. w)"

definition scale_weights :: "real \<Rightarrow> accum_call list \<Rightarrow> accum_call list" where
  "scale_weights k calls = map (\<lambda>(c, x, w). (c, x, k * w)) calls"

section \<open>Sample frames\<close>

text \<open>
  One band, one channel; the reference is unmodulated and the test signal is
  modulated, while the adapted and the raw reference excitation agree.
\<close>

definition ld_ear_model :: PeaqEarModel where
  "ld_ear_model = \<lparr>band_count = 1, frame_size = 2048, internal_noise = (\<lambda>k. 1)\<rparr>"

definition ld_ref_mod_proc :: "nat \<Rightarrow> PeaqModulationProcessor" where
  "ld_ref_mod_proc c =
     \<lparr>ear_model = ld_ear_model, modulation = (\<lambda>k. 0), average_loudness = (\<lambda>k. 1)\<rparr>"

definition ld_test_mod_proc :: "nat \<Rightarrow> PeaqModulationProcessor" where
  "ld_test_mod_proc c =
     \<lparr>ear_model = ld_ear_model, modulation = (\<lambda>k. 20), average_loudness = (\<lambda>k. 1)\<rparr>"

definition ld_level :: "nat \<Rightarrow> PeaqLevelAdapter" where
  "ld_level c = \<lparr>adapted_ref = (\<lambda>k. 1), adapted_test = (\<lambda>k. 1)\<rparr>"

definition ld_state :: "nat \<Rightarrow> EarModelState" where
  "ld_state c =
     \<lparr>excitation = (\<lambda>k. 1), power_spectrum = (\<lambda>k. 0), weighted_power_spectrum = (\<lambda>k. 0),
      energy_threshold_reached = True\<rparr>"




text \<open>
  Two bands, one channel; the grouping into bands takes bin \<open>k\<close> for band \<open>k\<close>.
  Every band has the noise-to-mask ratio 2.
\<close>

definition nmr_ear_model :: PeaqFFTEarModel where
  "nmr_ear_model =
     \<lparr>band_count = 2, frame_size = 2048, internal_noise = (\<lambda>k. 1),
      masking_difference = (\<lambda>k. 2), group_into_bands = (\<lambda>spectrum k. spectrum k)\<rparr>"

definition nmr_ref_state :: "nat \<Rightarrow> EarModelState" where
  "nmr_ref_state c =
     \<lparr>excitation = (\<lambda>k. 1), power_spectrum = (\<lambda>i. 4), weighted_power_spectrum = (\<lambda>i. 4),
      energy_threshold_reached = True\<rparr>"

definition nmr_test_state :: "nat \<Rightarrow> EarModelState" where
  "nmr_test_state c =
     \<lparr>excitation = (\<lambda>k. 1), power_spectrum = (\<lambda>i. 1), weighted_power_spectrum = (\<lambda>i. 1),
      energy_threshold_reached = True\<rparr>"

text \<open>
  The discrete Fourier transform of a real signal and its inverse without the factor
  \<open>1 / len\<close>, to instantiate the transforms with.
\<close>

definition dft :: gst_fft where
  "dft len x k = (\<Sum>n<len. of_real (x n) * cis (- 2 * pi * real k * real n / real len))"

definition inverse_dft :: gst_inverse_fft where
  "inverse_dft len X n =
     Re (X 0) + (\<Sum>k = 1..<len div 2. 2 * Re (X k * cis (2 * pi * real k * real n / real len)))
     + Re (X (len div 2)) * (- 1) ^ n"

text \<open>
  Two channels.  In the active frame the reference of channel 1 has reached the energy
  threshold; in the silent frame no signal has.
\<close>

definition ehs_active_state :: "nat \<Rightarrow> EarModelState" where
  "ehs_active_state c =
     \<lparr>excitation = (\<lambda>k. 1), power_spectrum = (\<lambda>i. 1), weighted_power_spectrum = (\<lambda>i. 1),
      energy_threshold_reached = (c = 1)\<rparr>"

definition ehs_silent_state :: "nat \<Rightarrow> EarModelState" where
  "ehs_silent_state c =
     \<lparr>excitation = (\<lambda>k. 1), power_spectrum = (\<lambda>i. 2), weighted_power_spectrum = (\<lambda>i. 2),
      energy_threshold_reached = False\<rparr>"

text \<open>
  Two bands, one channel; the excitation is 1 in every band.
\<close>

definition pd_ear_model :: PeaqEarModel where
  "pd_ear_model = \<lparr>band_count = 2, frame_size = 2048, internal_noise = (\<lambda>k. 1)\<rparr>"

definition pd_ref_state :: "nat \<Rightarrow> EarModelState" where
  "pd_ref_state c =
     \<lparr>excitation = (\<lambda>k. 1), power_spectrum = (\<lambda>i. 1), weighted_power_spectrum = (\<lambda>i. 1),
      energy_threshold_reached = True\<rparr>"

text \<open>The shadow of \<open>a\<close> mirrors the committed state of \<open>b\<close>.\<close>

definition mirrors :: "PeaqMovAccum \<Rightarrow> PeaqMovAccum \<Rightarrow> bool" where
  "mirrors a b \<longleftrightarrow>
     tentative a \<and> \<not> tentative b \<and> shadow a = committed b \<and>
     acc_mode a = acc_mode b \<and> acc_channels a = acc_channels b"

text \<open>
  The accumulator is configured for mode \<open>m\<close> and \<open>C\<close> channels and is not in
  tentative state.
\<close>

definition ready :: "PeaqMovAccumMode \<Rightarrow> nat \<Rightarrow> PeaqMovAccum \<Rightarrow> bool" where
  "ready m C acc \<longleftrightarrow>
     acc_mode acc = Some m \<and> acc_channels acc = Some C \<and> \<not> tentative acc \<and>
     length (committed acc) = C"

text \<open>
  The running sums of \<open>a\<close> are those of \<open>b\<close> multiplied by \<open>q\<close>, channel by
  channel.
\<close>

definition scaled_by :: "real \<Rightarrow> PeaqMovAccum \<Rightarrow> PeaqMovAccum \<Rightarrow> bool" where
  "scaled_by q a b \<longleftrightarrow>
     length (committed a) = length (committed b) \<and>
     (\<forall>c<length (committed b).
        sum_wx (committed a ! c) = q * sum_wx (committed b ! c) \<and>
        sum_w (committed a ! c) = q * sum_w (committed b ! c))"

text \<open>The factor on the running sums when every weight is multiplied by \<open>k\<close>.\<close>

definition sum_factor :: "PeaqMovAccumMode \<Rightarrow> real \<Rightarrow> real" where
  "sum_factor m k = (if m = MODE_RMS then k\<^sup>2 else k)"

section \<open>Loops as sums and lists\<close>

lemma pow_023: "pow x (23 / 100) = x powr (23 / 100)"
proof -
  have "\<lfloor>23 / 100::real\<rfloor> = 0" by simp
  then show ?thesis by (simp add: pow_def)
qed

lemma fold_add_sum:
  "fold (\<lambda>i (acc::real). acc + f i) [0..<n] a = a + (\<Sum>k<n. f k)"
  by (induction n arbitrary: a) (simp_all add: algebra_simps)

lemma MAX2_max: "MAX2 a b = max a b"
  by (simp add: MAX2_def max_def)

lemma fold_snoc_map:
  "fold (\<lambda>c calls. calls @ [g c]) [0..<n] acc = acc @ map g [0..<n]"
  by (induction n arbitrary: acc) simp_all

section \<open>Noise loudness and linear distortion\<close>

lemma noise_loudness_fold:
  "fold (noise_loudness_step alpha thres_fac S0 em rm tm er et) [0..<n] a =
   a + (\<Sum>k<n.
        (internal_noise em k / (thres_fac * tm k + S0)) powr 0.23 *
        ((1 + max ((thres_fac * tm k + S0) * et k - (thres_fac * rm k + S0) * er k) 0 /
              (internal_noise em k + (thres_fac * rm k + S0) * er k *
                 exp (- alpha * (et k - er k) / er k))) powr 0.23 - 1))"
proof -
  have "noise_loudness_step alpha thres_fac S0 em rm tm er et =
        (\<lambda>i acc. acc + (internal_noise em i / (thres_fac * tm i + S0)) powr 0.23 *
        ((1 + max ((thres_fac * tm i + S0) * et i - (thres_fac * rm i + S0) * er i) 0 /
              (internal_noise em i + (thres_fac * rm i + S0) * er i *
                 exp (- alpha * (et i - er i) / er i))) powr 0.23 - 1))"
    by (intro ext) (simp add: noise_loudness_step_def Let_def pow_023 MAX2_max)
  then show ?thesis by (simp only: fold_add_sum)
qed

lemma calc_noise_loudness_spec:
  "calc_noise_loudness alpha thres_fac S0 NLmin rmp tmp er et =
   (if spec_scaled_noise_loudness alpha thres_fac S0 (band_count (ear_model rmp))
         (internal_noise (ear_model rmp)) (modulation rmp) (modulation tmp) er et < NLmin
    then 0
    else spec_scaled_noise_loudness alpha thres_fac S0 (band_count (ear_model rmp))
         (internal_noise (ear_model rmp)) (modulation rmp) (modulation tmp) er et)"
  by (simp add: calc_noise_loudness_def Let_def noise_loudness_fold spec_scaled_noise_loudness_def)

lemma spec_scaled_same: "spec_scaled_noise_loudness alpha thres_fac S0 Z eT m m e e = 0"
  by (simp add: spec_scaled_noise_loudness_def)

text \<open>
  C8.  \<open>calc_noise_loudness\<close> returns 0 when the sum over the bands, scaled by
  \<open>24 / Z\<close>, is strictly below \<open>NLmin\<close>, and the scaled sum itself otherwise.
  When the test modulation and excitation are those of the reference, the numerator
  \<open>max (sTest * excTest - sRef * excRef, 0)\<close> is 0 in every band \<open>k\<close> and the
  function returns 0.
\<close>

theorem calc_noise_loudness_clamp:
  "calc_noise_loudness alpha thres_fac S0 NLmin rmp tmp er et =
     (if spec_scaled_noise_loudness alpha thres_fac S0 (band_count (ear_model rmp))
           (internal_noise (ear_model rmp)) (modulation rmp) (modulation tmp) er et < NLmin
      then 0
      else spec_scaled_noise_loudness alpha thres_fac S0 (band_count (ear_model rmp))
           (internal_noise (ear_model rmp)) (modulation rmp) (modulation tmp) er et)
   \<and> MAX2 ((thres_fac * modulation rmp k + S0) * er k
            - (thres_fac * modulation rmp k + S0) * er k) 0 = 0
   \<and> calc_noise_loudness alpha thres_fac S0 NLmin rmp (tmp\<lparr>modulation := modulation rmp\<rparr>)
        er er = 0"
proof (intro conjI)
  show "calc_noise_loudness alpha thres_fac S0 NLmin rmp tmp er et =
     (if spec_scaled_noise_loudness alpha thres_fac S0 (band_count (ear_model rmp))
           (internal_noise (ear_model rmp)) (modulation rmp) (modulation tmp) er et < NLmin
      then 0
      else spec_scaled_noise_loudness alpha thres_fac S0 (band_count (ear_model rmp))
           (internal_noise (ear_model rmp)) (modulation rmp) (modulation tmp) er et)"
    by (rule calc_noise_loudness_spec)
  show "MAX2 ((thres_fac * modulation rmp k + S0) * er k
            - (thres_fac * modulation rmp k + S0) * er k) 0 = 0"
    by (simp add: MAX2_def)
  show "calc_noise_loudness alpha thres_fac S0 NLmin rmp (tmp\<lparr>modulation := modulation rmp\<rparr>)
        er er = 0"
    unfolding calc_noise_loudness_spec by (simp add: spec_scaled_same)
qed

lemma peaq_mov_lin_dist_calls:
  "peaq_mov_lin_dist swap r t l s channels =
   map (\<lambda>c. (c, calc_noise_loudness 1.5 0.15 1 0 (r c) (if swap then r c else t c)
                  (adapted_ref (l c)) (excitation (s c)), 1)) [0..<channels]"
proof -
  have "peaq_mov_lin_dist swap r t l s channels =
        fold (\<lambda>c calls. calls @
                [(c, calc_noise_loudness 1.5 0.15 1 0 (r c) (if swap then r c else t c)
                       (adapted_ref (l c)) (excitation (s c)), 1)]) [0..<channels] []"
    by (cases swap) (simp_all add: peaq_mov_lin_dist_def Let_def)
  also have "\<dots> = [] @
        map (\<lambda>c. (c, calc_noise_loudness 1.5 0.15 1 0 (r c) (if swap then r c else t c)
                       (adapted_ref (l c)) (excitation (s c)), 1)) [0..<channels]"
    by (rule fold_snoc_map)
  finally show ?thesis by simp
qed

lemma ld_code_pos: "0 < (1/4::real) powr (23/100) * ((5/2) powr (23/100) - 1) * 24"
proof -
  have "1 < (5/2::real) powr (23/100)"
    by (rule gr_one_powr) simp_all
  moreover have "0 < (1/4::real) powr (23/100)" by simp
  ultimately show ?thesis by simp
qed

lemma ld_code_scaled:
  "spec_scaled_noise_loudness 1.5 0.15 1 1 (\<lambda>k. 1) (\<lambda>k. 0) (\<lambda>k. 20) (\<lambda>k. 1) (\<lambda>k. 1) =
   (1/4) powr (23/100) * ((5/2) powr (23/100) - 1) * 24"
  by (simp add: spec_scaled_noise_loudness_def)

lemma ld_code_value:
  "calc_noise_loudness 1.5 0.15 1 0 (ld_ref_mod_proc 0) (ld_test_mod_proc 0)
     (adapted_ref (ld_level 0)) (excitation (ld_state 0)) =
   (1/4) powr (23/100) * ((5/2) powr (23/100) - 1) * 24"
proof -
  have "calc_noise_loudness 1.5 0.15 1 0 (ld_ref_mod_proc 0) (ld_test_mod_proc 0)
     (adapted_ref (ld_level 0)) (excitation (ld_state 0)) =
     (if spec_scaled_noise_loudness 1.5 0.15 1 1 (\<lambda>k. 1) (\<lambda>k. 0) (\<lambda>k. 20) (\<lambda>k. 1) (\<lambda>k. 1) < 0
      then 0
      else spec_scaled_noise_loudness 1.5 0.15 1 1 (\<lambda>k. 1) (\<lambda>k. 0) (\<lambda>k. 20) (\<lambda>k. 1) (\<lambda>k. 1))"
    unfolding calc_noise_loudness_spec
    by (simp add: ld_ref_mod_proc_def ld_test_mod_proc_def ld_level_def ld_state_def
        ld_ear_model_def)
  then show ?thesis
    unfolding ld_code_scaled using ld_code_pos by simp
qed

lemma ld_claim_value:
  "calc_noise_loudness 1.5 0.15 1 0 (ld_ref_mod_proc 0) (ld_ref_mod_proc 0)
     (adapted_ref (ld_level 0)) (excitation (ld_state 0)) = 0"
  by (simp add: calc_noise_loudness_spec spec_scaled_noise_loudness_def ld_ref_mod_proc_def
      ld_level_def ld_state_def ld_ear_model_def)

text \<open>
  C1, as stated, fails: without the swap, on a one-channel frame whose test
  modulation differs from the reference modulation, \<open>peaq_mov_lin_dist\<close> does not
  accumulate the noise loudness computed with the reference modulation in both
  slots (which is 0 on this frame); it accumulates a positive value.
\<close>

theorem peaq_mov_lin_dist_ref_ref_counterexample:
  "peaq_mov_lin_dist False ld_ref_mod_proc ld_test_mod_proc ld_level ld_state 1 \<noteq>
   [(0, calc_noise_loudness 1.5 0.15 1 0 (ld_ref_mod_proc 0) (ld_ref_mod_proc 0)
          (adapted_ref (ld_level 0)) (excitation (ld_state 0)), 1)]"
proof -
  have up: "[0..<1::nat] = [0]" by simp
  have "peaq_mov_lin_dist False ld_ref_mod_proc ld_test_mod_proc ld_level ld_state 1 =
        [(0, (1/4) powr (23/100) * ((5/2) powr (23/100) - 1) * 24, 1)]"
    unfolding peaq_mov_lin_dist_calls up by (simp only: list.map if_False ld_code_value)
  then show ?thesis
    unfolding ld_claim_value using ld_code_pos by simp
qed

text \<open>
  C1, amended.  Without the swap, for every channel below the accumulator's channel
  count and in the order of the channels, \<open>peaq_mov_lin_dist\<close> accumulates with
  weight 1 the value \<open>noise_loudness (1.5, 0.15, 1.0, 0, modRef, modTest, adaptedRef,
  excRef)\<close>: \<open>sRef\<close> comes from the reference modulation and \<open>sTest\<close> from the
  test modulation.
\<close>

theorem peaq_mov_lin_dist_no_swap:
  "peaq_mov_lin_dist False ref_mod_proc test_mod_proc level state channels =
   map (\<lambda>c. (c, calc_noise_loudness 1.5 0.15 1 0 (ref_mod_proc c) (test_mod_proc c)
                  (adapted_ref (level c)) (excitation (state c)), 1)) [0..<channels]"
  unfolding peaq_mov_lin_dist_calls by (simp only: if_False)

text \<open>With the swap, the reference modulation fills both slots.\<close>

lemma peaq_mov_lin_dist_swap:
  "peaq_mov_lin_dist True ref_mod_proc test_mod_proc level state channels =
   map (\<lambda>c. (c, calc_noise_loudness 1.5 0.15 1 0 (ref_mod_proc c) (ref_mod_proc c)
                  (adapted_ref (level c)) (excitation (state c)), 1)) [0..<channels]"
  unfolding peaq_mov_lin_dist_calls by (simp only: if_True)

section \<open>Bandwidth\<close>








text \<open>
  The constant is the double nearest to the literal of the source, and it is the
  factor \<open>10 powr (5 / 10)\<close> of 5 dB to fifteen significant digits.
\<close>

lemma FIVE_DB_POWER_FACTOR_nearest:
  "\<bar>FIVE_DB_POWER_FACTOR - 3.16227766016838\<bar> < 1 / 2 ^ 52"
  by (simp add: FIVE_DB_POWER_FACTOR_def abs_if)










section \<open>Noise-to-mask ratio\<close>

lemma nmr_fold:
  "fold (nmr_step e md nib) [0..<n] (a, b) =
   (a + (\<Sum>k<n. nib k / (e k / md k)), Max (insert b ((\<lambda>k. nib k / (e k / md k)) ` {..<n})))"
proof (induction n)
  case 0
  then show ?case by simp
next
  case (Suc n)
  define q where "q = (\<lambda>k. nib k / (e k / md k))"
  define m where "m = Max (insert b (q ` {..<n}))"
  have IH: "fold (nmr_step e md nib) [0..<n] (a, b) = (a + (\<Sum>k<n. q k), m)"
    unfolding q_def m_def by (rule Suc.IH)
  have sets: "insert (q n) (insert b (q ` {..<n})) = insert b (q ` {..<Suc n})"
    by (auto simp: less_Suc_eq)
  have "fold (nmr_step e md nib) [0..<Suc n] (a, b) =
        (a + (\<Sum>k<Suc n. q k), if q n > m then q n else m)"
    using IH by (simp add: nmr_step_def Let_def q_def)
  also have "(if q n > m then q n else m) = max (q n) m" by (simp add: max_def)
  also have "max (q n) m = Max (insert (q n) (insert b (q ` {..<n})))"
    unfolding m_def by (rule Max_insert [symmetric]) simp_all
  also have "\<dots> = Max (insert b (q ` {..<Suc n}))" by (simp only: sets)
  finally show ?case unfolding q_def .
qed

lemma Max_insert_zero_gt:
  assumes "finite A" "A \<noteq> {}" "(0::real) < t"
  shows "Max (insert 0 A) > t \<longleftrightarrow> Max A > t"
proof -
  have "Max (insert 0 A) = max 0 (Max A)" using assms by simp
  then show ?thesis using assms(3) by (simp add: max_def)
qed

lemma fold_pair_map:
  "fold (\<lambda>c (xs, ys). (xs @ [f c], ys @ g c)) [0..<n] (xs0, ys0) =
   (xs0 @ map f [0..<n], ys0 @ concat (map g [0..<n]))"
  by (induction n arbitrary: xs0 ys0) simp_all

lemma concat_map_single: "concat (map (\<lambda>c. [h c]) xs) = map h xs"
  by (induction xs) simp_all

lemma concat_map_nil: "concat (map (\<lambda>c. []) xs) = []"
  by (induction xs) simp_all

text \<open>
  C5.  For every channel, \<open>peaq_mov_nmr\<close> accumulates into the NMR accumulator,
  with weight 1, the per-frame value \<open>nmr\<close> (the mean over the bands of the
  band-wise noise-to-mask ratio) when the accumulator's mode is \<open>MODE_AVG_LOG\<close>
  and \<open>10 * log10 (nmr)\<close> for any other mode.  When the accumulator of the
  relative disturbed frames is given, it receives, with weight 1, the value 1 if the
  maximum over the bands of the noise-to-mask ratio exceeds 1.41253754462275 and 0
  otherwise.  The ear model has at least one band.
\<close>

theorem peaq_mov_nmr_calls:
  assumes "0 < band_count em"
  shows "peaq_mov_nmr em ref_state test_state n m rdf =
   (map (\<lambda>c. (c, if m = MODE_AVG_LOG then spec_nmr em (ref_state c) (test_state c)
                  else 10 * log 10 (spec_nmr em (ref_state c) (test_state c)), 1)) [0..<n],
    if rdf
    then map (\<lambda>c. (c, if spec_nmr_max em (ref_state c) (test_state c) > 1.41253754462275
                       then 1 else 0, 1)) [0..<n]
    else [])"
proof -
  have ne: "spec_curr_nmr em r t ` {..<band_count em} \<noteq> {}" for r t
  proof -
    have "0 \<in> {..<band_count em}" using assms by simp
    then show ?thesis by blast
  qed
  have mx: "(Max (insert 0 (spec_curr_nmr em r t ` {..<band_count em}))
               > ONE_POINT_FIVE_DB_POWER_FACTOR)
        = (spec_nmr_max em r t > 1.41253754462275)" for r t
    unfolding spec_nmr_max_def ONE_POINT_FIVE_DB_POWER_FACTOR_def
  proof (rule Max_insert_zero_gt)
    show "finite (spec_curr_nmr em r t ` {..<band_count em})" by simp
    show "spec_curr_nmr em r t ` {..<band_count em} \<noteq> {}" by (rule ne)
    show "(0::real) < 1.41253754462275" by simp
  qed
  have loop: "fold (nmr_step (excitation r) (masking_difference em)
                 (group_into_bands em (noise_spectrum_of (frame_size em)
                    (weighted_power_spectrum r) (weighted_power_spectrum t))))
               [0..<band_count em] (0, 0) =
              (spec_nmr em r t * real (band_count em),
               Max (insert 0 (spec_curr_nmr em r t ` {..<band_count em})))" for r t
    using assms unfolding nmr_fold
    by (simp add: spec_nmr_def spec_curr_nmr_def [abs_def])
  have body: "peaq_mov_nmr em ref_state test_state n m rdf =
    fold (\<lambda>c (xs, ys).
        (xs @ [(c, if m = MODE_AVG_LOG then spec_nmr em (ref_state c) (test_state c)
                  else 10 * log 10 (spec_nmr em (ref_state c) (test_state c)), 1)],
         ys @ (if rdf then [(c, if spec_nmr_max em (ref_state c) (test_state c) > 1.41253754462275
                       then 1 else 0, 1)] else [])))
      [0..<n] ([], [])"
    unfolding peaq_mov_nmr_def Let_def loop fst_conv snd_conv mx log10_def
    using assms by (intro arg_cong [where f = "\<lambda>F. fold F [0..<n] ([], [])"] ext) auto
  show ?thesis
    unfolding body fold_pair_map
    by (cases rdf) (simp_all add: concat_map_single concat_map_nil)
qed


theorem peaq_mov_nmr_calls_witness:
  "0 < band_count nmr_ear_model \<and>
   peaq_mov_nmr nmr_ear_model nmr_ref_state nmr_test_state 1 MODE_AVG_LOG True =
     ([(0, 2, 1)], [(0, 1, 1)])"
proof -
  have h: "0 < band_count nmr_ear_model" by (simp add: nmr_ear_model_def)
  have two: "{..<2::nat} = {0, 1}" by auto
  have bc: "band_count nmr_ear_model = 2" by (simp add: nmr_ear_model_def)
  have curr: "spec_curr_nmr nmr_ear_model (nmr_ref_state 0) (nmr_test_state 0) k = 2"
    if "k < 2" for k
    using that
    by (simp add: spec_curr_nmr_def nmr_ear_model_def nmr_ref_state_def
        nmr_test_state_def noise_spectrum_of_def)
  have v: "spec_nmr nmr_ear_model (nmr_ref_state 0) (nmr_test_state 0) = 2"
    unfolding spec_nmr_def bc by (simp add: two curr)
  have img: "spec_curr_nmr nmr_ear_model (nmr_ref_state 0) (nmr_test_state 0) ` {..<2} = {2}"
    unfolding two by (simp add: curr)
  have mx: "spec_nmr_max nmr_ear_model (nmr_ref_state 0) (nmr_test_state 0) = 2"
    unfolding spec_nmr_max_def bc by (simp add: img)
  show ?thesis
    using h peaq_mov_nmr_calls [OF h, of nmr_ref_state nmr_test_state 1 MODE_AVG_LOG True]
    by (simp add: v mx)
qed

section \<open>Error harmonic structure\<close>

lemma fold_flag:
  "fold (\<lambda>chan v. if P chan then True else v) [0..<n] b \<longleftrightarrow> b \<or> (\<exists>chan<n. P chan)"
  by (induction n arbitrary: b) (auto simp: less_Suc_eq)

lemma peaq_mov_ehs_calls:
  "peaq_mov_ehs C S fft ifft rs ts n =
   (if \<exists>chan<n. energy_threshold_reached (rs chan) \<or> energy_threshold_reached (ts chan)
    then map (\<lambda>chan. (chan, 1000 * ehs_channel C S fft ifft (rs chan) (ts chan), 1)) [0..<n]
    else [])"
  unfolding peaq_mov_ehs_def Let_def fold_flag fold_snoc_map by auto

text \<open>
  C6.  \<open>peaq_mov_ehs\<close> makes no accumulation at all if and only if, for every
  channel, neither the reference's nor the test signal's \<open>energy_threshold_reached\<close>
  flag is set.  When some channel has a flag set, it accumulates exactly one value
  for every channel, in the order of the channels: 1000 times the EHS peak value of
  that channel, with weight 1.
\<close>

theorem peaq_mov_ehs_gate:
  "(peaq_mov_ehs C S fft ifft rs ts n = [] \<longleftrightarrow>
      (\<forall>chan<n. \<not> energy_threshold_reached (rs chan) \<and> \<not> energy_threshold_reached (ts chan)))
   \<and> ((\<exists>chan<n. energy_threshold_reached (rs chan) \<or> energy_threshold_reached (ts chan)) \<longrightarrow>
        peaq_mov_ehs C S fft ifft rs ts n =
          map (\<lambda>chan. (chan, 1000 * ehs_channel C S fft ifft (rs chan) (ts chan), 1)) [0..<n])"
proof (cases "\<exists>chan<n. energy_threshold_reached (rs chan) \<or> energy_threshold_reached (ts chan)")
  case True
  then have "0 < n" by auto
  then have "[0..<n] \<noteq> []" by simp
  with True show ?thesis unfolding peaq_mov_ehs_calls by auto
next
  case False
  then show ?thesis unfolding peaq_mov_ehs_calls by auto
qed

theorem peaq_mov_ehs_gate_witness:
  "peaq_mov_ehs False False dft inverse_dft ehs_silent_state ehs_silent_state 2 = []
   \<and> map fst (peaq_mov_ehs False False dft inverse_dft ehs_active_state ehs_silent_state 2)
       = [0, 1]"
proof -
  have two: "[0..<2::nat] = [0, 1]" by (simp add: upt_rec)
  have silent: "\<forall>chan<2. \<not> energy_threshold_reached (ehs_silent_state chan) \<and>
                  \<not> energy_threshold_reached (ehs_silent_state chan)"
    by (simp add: ehs_silent_state_def)
  have active: "\<exists>chan<2. energy_threshold_reached (ehs_active_state chan) \<or>
                  energy_threshold_reached (ehs_silent_state chan)"
    by (rule exI [of _ 1]) (simp add: ehs_active_state_def)
  from silent
    peaq_mov_ehs_gate [of False False dft inverse_dft ehs_silent_state ehs_silent_state 2]
  have a: "peaq_mov_ehs False False dft inverse_dft ehs_silent_state ehs_silent_state 2 = []"
    by blast
  from active
    peaq_mov_ehs_gate [of False False dft inverse_dft ehs_active_state ehs_silent_state 2]
  have "peaq_mov_ehs False False dft inverse_dft ehs_active_state ehs_silent_state 2 =
        map (\<lambda>chan. (chan, 1000 * ehs_channel False False dft inverse_dft
                               (ehs_active_state chan) (ehs_silent_state chan), 1)) [0..<2]"
    by blast
  then have b: "map fst (peaq_mov_ehs False False dft inverse_dft ehs_active_state
                  ehs_silent_state 2) = [0, 1]"
    by (simp add: two)
  from a b show ?thesis by simp
qed

section \<open>Detection probability\<close>

lemma pow_pos_base:
  assumes "0 < x"
  shows "pow x y = x powr y"
proof (cases "y = of_int \<lfloor>y\<rfloor>")
  case int: True
  show ?thesis
  proof (cases "0 \<le> y")
    case True
    then have "real (nat \<lfloor>y\<rfloor>) = y" using int by simp
    then have "x powr y = x ^ nat \<lfloor>y\<rfloor>"
      using assms powr_realpow [of x "nat \<lfloor>y\<rfloor>"] by simp
    then show ?thesis using int True by (simp add: pow_def)
  next
    case False
    define k where "k = \<lfloor>y\<rfloor>"
    have y: "y = of_int k" using int by (simp add: k_def)
    have "k < 0" using False y by simp
    then have "real (nat \<lfloor>- y\<rfloor>) = - y" by (simp add: y)
    then have "x powr (- y) = x ^ nat \<lfloor>- y\<rfloor>"
      using assms powr_realpow [of x "nat \<lfloor>- y\<rfloor>"] by simp
    then have "inverse (x ^ nat \<lfloor>- y\<rfloor>) = x powr y"
      by (metis powr_minus minus_minus)
    then show ?thesis using int False by (simp add: pow_def)
  qed
next
  case False
  then show ?thesis by (simp add: pow_def)
qed

lemma pow_4: "pow x 4 = x ^ 4"
  by (simp add: pow_def)

lemma pow_3: "pow x 3 = x ^ 3"
  by (simp add: pow_def)

lemma pow_6: "pow x 6 = x ^ 6"
  by (simp add: pow_def)


lemma code_s_spec:
  "(if l > 0
    then 5.95072 * pow (6.39468 / l) 1.71332 +
         9.01033 / 10 ^ 11 * pow l 4 + 5.05622 / 10 ^ 6 * pow l 3 -
         0.00102438 * l * l + 0.0550197 * l - 0.198719
    else 10 ^ 30) = spec_s l"
proof (cases "l > 0")
  case True
  then have "0 < 6.39468 / l" by simp
  then have "pow (6.39468 / l) 1.71332 = (6.39468 / l) powr 1.71332"
    by (rule pow_pos_base)
  then show ?thesis
    using True unfolding spec_s_def pow_4 pow_3 by (simp add: power2_eq_square)
next
  case False
  then show ?thesis by (simp add: spec_s_def)
qed

lemma code_pc_spec:
  "1 - pow 0.5 (pow x (if a > b then 4 else 6)) =
   1 - 0.5 powr (x ^ (if (a::real) > b then 4 else 6))"
proof -
  have "pow 0.5 y = 0.5 powr y" for y by (rule pow_pos_base) simp
  then show ?thesis by (simp add: pow_4 pow_6)
qed

lemma detection_step_spec:
  "detection_step uf rs ts i c st =
   (if spec_p_c (excitation (rs c) i) (excitation (ts c) i) > fst st
    then spec_p_c (excitation (rs c) i) (excitation (ts c) i) else fst st,
    if c = 0 \<or>
       (if uf then \<bar>of_int \<lfloor>spec_e (excitation (rs c) i) (excitation (ts c) i)\<rfloor>\<bar>
                   / spec_s (spec_L (excitation (rs c) i) (excitation (ts c) i))
        else spec_q_c (excitation (rs c) i) (excitation (ts c) i)) > snd st
    then (if uf then \<bar>of_int \<lfloor>spec_e (excitation (rs c) i) (excitation (ts c) i)\<rfloor>\<bar>
                   / spec_s (spec_L (excitation (rs c) i) (excitation (ts c) i))
        else spec_q_c (excitation (rs c) i) (excitation (ts c) i))
    else snd st)"
  unfolding detection_step_def Let_def code_s_spec code_pc_spec
  unfolding spec_p_c_def spec_q_c_def spec_e_def spec_L_def spec_b_def spec_dB_def
    log10_def MAX2_max fabs_def trunc_def
  by simp


lemma image_lessThan_nonempty: "0 < n \<Longrightarrow> f ` {..<n::nat} \<noteq> {}"
proof -
  assume "0 < n"
  then have "0 \<in> {..<n}" by simp
  then show ?thesis by blast
qed

lemma fold_channels_max:
  "fold (\<lambda>c st. (if P c > fst st then P c else fst st,
                   if c = 0 \<or> Q c > snd st then Q c else snd st)) [0..<n] (0::real, 0::real) =
   (Max (insert 0 (P ` {..<n})), if n = 0 then 0 else Max (Q ` {..<n}))"
proof (induction n)
  case 0
  then show ?case by simp
next
  case (Suc n)
  define mp where "mp = Max (insert 0 (P ` {..<n}))"
  define mq where "mq = (if n = 0 then 0 else Max (Q ` {..<n}))"
  have IH: "fold (\<lambda>c st. (if P c > fst st then P c else fst st,
                   if c = 0 \<or> Q c > snd st then Q c else snd st)) [0..<n] (0, 0) = (mp, mq)"
    unfolding mp_def mq_def by (rule Suc.IH)
  have setP: "insert (P n) (insert 0 (P ` {..<n})) = insert 0 (P ` {..<Suc n})"
    by (auto simp: less_Suc_eq)
  have setQ: "insert (Q n) (Q ` {..<n}) = Q ` {..<Suc n}"
    by (auto simp: less_Suc_eq)
  have p: "(if P n > mp then P n else mp) = Max (insert 0 (P ` {..<Suc n}))"
  proof -
    have "(if P n > mp then P n else mp) = max (P n) mp" by (simp add: max_def)
    also have "\<dots> = Max (insert (P n) (insert 0 (P ` {..<n})))"
      unfolding mp_def by (rule Max_insert [symmetric]) simp_all
    finally show ?thesis by (simp only: setP)
  qed
  have q: "(if n = 0 \<or> Q n > mq then Q n else mq) = Max (Q ` {..<Suc n})"
  proof (cases "n = 0")
    case True
    then show ?thesis by (simp add: lessThan_Suc)
  next
    case False
    then have ne: "Q ` {..<n} \<noteq> {}" by (intro image_lessThan_nonempty) simp
    have "(if n = 0 \<or> Q n > mq then Q n else mq) = max (Q n) (Max (Q ` {..<n}))"
      using False by (simp add: mq_def max_def)
    also have "\<dots> = Max (insert (Q n) (Q ` {..<n}))"
    proof (rule Max_insert [symmetric])
      show "finite (Q ` {..<n})" by simp
      show "Q ` {..<n} \<noteq> {}" by (rule ne)
    qed
    finally show ?thesis by (simp only: setQ)
  qed
  have "fold (\<lambda>c st. (if P c > fst st then P c else fst st,
                   if c = 0 \<or> Q c > snd st then Q c else snd st)) [0..<Suc n] (0, 0) =
        (if P n > mp then P n else mp, if n = 0 \<or> Q n > mq then Q n else mq)"
    unfolding upt_Suc_append [OF le0] fold_append comp_apply IH by simp
  then show ?case unfolding p q by simp
qed

lemma fold_prod_sum:
  "fold (\<lambda>i st. (fst st * f i, snd st + g i)) [0..<n] (a::real, b::real) =
   (a * (\<Prod>k<n. f k), b + (\<Sum>k<n. g k))"
  by (induction n arbitrary: a b) (simp_all add: algebra_simps)

lemma spec_p_c_nonneg: "0 \<le> spec_p_c Er Et"
proof -
  define y where "y = (spec_e Er Et / spec_s (spec_L Er Et)) ^ spec_b Er Et"
  have "even (spec_b Er Et)" by (simp add: spec_b_def)
  then have "0 \<le> y" unfolding y_def by (rule zero_le_even_power)
  then have "(0.5::real) powr y \<le> 0.5 powr 0"
    by (intro powr_mono') simp_all
  then show ?thesis unfolding spec_p_c_def y_def [symmetric] by simp
qed

lemma Max_insert0_nonneg:
  assumes "\<And>c. 0 \<le> P c" "0 < n"
  shows "Max (insert (0::real) (P ` {..<n::nat})) = Max (P ` {..<n})"
proof -
  have ne: "P ` {..<n} \<noteq> {}" using assms(2) by (rule image_lessThan_nonempty)
  have "Max (insert 0 (P ` {..<n})) = max 0 (Max (P ` {..<n}))"
  proof (rule Max_insert)
    show "finite (P ` {..<n})" by simp
    show "P ` {..<n} \<noteq> {}" by (rule ne)
  qed
  moreover have "0 \<le> Max (P ` {..<n})"
  proof -
    have "P 0 \<le> Max (P ` {..<n})" by (rule Max_ge) (use assms(2) in auto)
    with assms(1) [of 0] show ?thesis by linarith
  qed
  ultimately show ?thesis by simp
qed


lemma detection_fold:
  "fold (detection_step uf rs ts i) [0..<n] (0, 0) =
   (Max (insert 0 ((\<lambda>c. spec_p_c (excitation (rs c) i) (excitation (ts c) i)) ` {..<n})),
    if n = 0 then 0
    else Max ((\<lambda>c. if uf
                     then \<bar>of_int \<lfloor>spec_e (excitation (rs c) i) (excitation (ts c) i)\<rfloor>\<bar>
                          / spec_s (spec_L (excitation (rs c) i) (excitation (ts c) i))
                     else spec_q_c (excitation (rs c) i) (excitation (ts c) i)) ` {..<n}))"
proof -
  define P where "P = (\<lambda>c. spec_p_c (excitation (rs c) i) (excitation (ts c) i))"
  define Q where "Q = (\<lambda>c. if uf
                     then \<bar>of_int \<lfloor>spec_e (excitation (rs c) i) (excitation (ts c) i)\<rfloor>\<bar>
                          / spec_s (spec_L (excitation (rs c) i) (excitation (ts c) i))
                     else spec_q_c (excitation (rs c) i) (excitation (ts c) i))"
  have "detection_step uf rs ts i =
        (\<lambda>c st. (if P c > fst st then P c else fst st,
                   if c = 0 \<or> Q c > snd st then Q c else snd st))"
    unfolding P_def Q_def by (intro ext) (rule detection_step_spec)
  then show ?thesis
    unfolding P_def [symmetric] Q_def [symmetric] by (simp only: fold_channels_max)
qed

lemma binaural_fold:
  "fold (binaural_step uf rs ts n) [0..<Z] (a, b) =
   (a * (\<Prod>k<Z. 1 - fst (fold (detection_step uf rs ts k) [0..<n] (0, 0))),
    b + (\<Sum>k<Z. snd (fold (detection_step uf rs ts k) [0..<n] (0, 0))))"
proof -
  have "binaural_step uf rs ts n =
        (\<lambda>i st. (fst st * (1 - fst (fold (detection_step uf rs ts i) [0..<n] (0, 0))),
                  snd st + snd (fold (detection_step uf rs ts i) [0..<n] (0, 0))))"
    by (intro ext) (simp add: binaural_step_def Let_def)
  then show ?thesis by (simp only: fold_prod_sum)
qed

text \<open>
  C4.  On a frame with strictly positive excitations and at least one channel,
  \<open>peaq_mov_prob_detect\<close> (with truncation, the switch
  \<open>USE_FLOOR_FOR_STEPS_ABOVE_THRESHOLD\<close> unset) accumulates \<open>P_bin\<close> into the MFPD
  accumulator at channel 0 with weight 1 in every case, and \<open>Q_bin\<close> into the ADB
  accumulator at channel 0 with weight 1 if and only if \<open>P_bin > 0.5\<close>.  Here the
  step size \<open>s\<close> is \<open>10 ^ 30\<close> for \<open>L \<le> 0\<close> and the polynomial expression
  otherwise, \<open>q_c = |trunc (e)| / s\<close> with truncation toward zero, \<open>p_bin\<close> and
  \<open>q_bin\<close> are the maxima over the channels, \<open>P_bin\<close> is one minus the product
  over the bands of \<open>1 - p_bin[k]\<close> and \<open>Q_bin\<close> the sum over the bands of
  \<open>q_bin[k]\<close>.
\<close>

theorem peaq_mov_prob_detect_calls:
  assumes "0 < n" and "positive_excitations rs ts n (band_count em)"
  shows "peaq_mov_prob_detect False em rs ts n =
     (if spec_P_bin rs ts n (band_count em) > 0.5
      then [(0, spec_Q_bin rs ts n (band_count em), 1)] else [],
      [(0, spec_P_bin rs ts n (band_count em), 1)])"
proof -
  have p: "fst (fold (detection_step False rs ts k) [0..<n] (0, 0)) = spec_p_bin rs ts n k" for k
    unfolding detection_fold fst_conv spec_p_bin_def
    by (rule Max_insert0_nonneg) (simp_all add: spec_p_c_nonneg assms(1))
  have q: "snd (fold (detection_step False rs ts k) [0..<n] (0, 0)) = spec_q_bin rs ts n k" for k
    unfolding detection_fold snd_conv spec_q_bin_def using assms(1) by simp
  have st: "fold (binaural_step False rs ts n) [0..<band_count em] (1, 0) =
        (1 - spec_P_bin rs ts n (band_count em), spec_Q_bin rs ts n (band_count em))"
    unfolding binaural_fold p q spec_P_bin_def spec_Q_bin_def by simp
  show ?thesis
    unfolding peaq_mov_prob_detect_def Let_def st by simp
qed

theorem peaq_mov_prob_detect_calls_witness:
  "(0::nat) < 1 \<and> positive_excitations pd_ref_state pd_ref_state 1 (band_count pd_ear_model)
   \<and> peaq_mov_prob_detect False pd_ear_model pd_ref_state pd_ref_state 1 = ([], [(0, 0, 1)])"
proof -
  have h1: "(0::nat) < 1" by simp
  have h2: "positive_excitations pd_ref_state pd_ref_state 1 (band_count pd_ear_model)"
    by (simp add: positive_excitations_def pd_ref_state_def)
  have one: "{..<Suc 0} = {0}" by auto
  have pc: "spec_p_c 1 1 = 0"
    by (simp add: spec_p_c_def spec_e_def spec_dB_def spec_b_def)
  have qc: "spec_q_c 1 1 = 0"
    by (simp add: spec_q_c_def spec_e_def spec_dB_def)
  have P: "spec_P_bin pd_ref_state pd_ref_state 1 (band_count pd_ear_model) = 0"
    by (simp add: spec_P_bin_def spec_p_bin_def one pd_ref_state_def pc)
  have Q: "spec_Q_bin pd_ref_state pd_ref_state 1 (band_count pd_ear_model) = 0"
    by (simp add: spec_Q_bin_def spec_q_bin_def one pd_ref_state_def qc)
  show ?thesis
    using h1 h2 peaq_mov_prob_detect_calls [OF h1 h2] unfolding P Q by simp
qed

section \<open>The accumulator: tentative samples\<close>

lemma accumulate_all_append:
  "accumulate_all acc (P @ T) =
   (case accumulate_all acc P of Inl e \<Rightarrow> Inl e | Inr acc1 \<Rightarrow> accumulate_all acc1 T)"
proof (induction P arbitrary: acc)
  case Nil
  then show ?case by simp
next
  case (Cons call P)
  obtain c x w where call: "call = (c, x, w)" by (cases call)
  show ?case
    by (cases "peaq_movaccum_accumulate acc c x w") (simp_all add: call Cons.IH)
qed

lemma accumulate_keeps:
  assumes "peaq_movaccum_accumulate acc c x w = Inr acc'"
  shows "acc_mode acc' = acc_mode acc \<and> acc_channels acc' = acc_channels acc \<and>
         tentative acc' = tentative acc"
  using assms
  by (auto simp: peaq_movaccum_accumulate_def split: option.splits if_splits)

lemma accumulate_all_keeps:
  assumes "accumulate_all acc calls = Inr acc'"
  shows "acc_mode acc' = acc_mode acc \<and> acc_channels acc' = acc_channels acc \<and>
         tentative acc' = tentative acc"
  using assms
proof (induction calls arbitrary: acc)
  case Nil
  then show ?case by simp
next
  case (Cons call calls)
  obtain c x w where call: "call = (c, x, w)" by (cases call)
  from Cons.prems obtain acc1 where
    step: "peaq_movaccum_accumulate acc c x w = Inr acc1" and
    rest: "accumulate_all acc1 calls = Inr acc'"
    by (auto simp: call split: sum.splits)
  from Cons.IH [OF rest] accumulate_keeps [OF step] show ?case by simp
qed

lemma mirrors_set_tentative:
  "\<not> tentative acc \<Longrightarrow> mirrors (peaq_movaccum_set_tentative acc True) acc"
  by (simp add: mirrors_def peaq_movaccum_set_tentative_def)

lemma mirrors_accumulate:
  assumes "mirrors a b"
  shows "(case peaq_movaccum_accumulate a c x w of
            Inl e \<Rightarrow> peaq_movaccum_accumulate b c x w = Inl e
          | Inr a' \<Rightarrow> (\<exists>b'. peaq_movaccum_accumulate b c x w = Inr b' \<and> mirrors a' b'))"
  using assms
  by (auto simp: mirrors_def peaq_movaccum_accumulate_def split: option.splits)

lemma mirrors_accumulate_all:
  assumes "mirrors a b"
  shows "(case accumulate_all a calls of
            Inl e \<Rightarrow> accumulate_all b calls = Inl e
          | Inr a' \<Rightarrow> (\<exists>b'. accumulate_all b calls = Inr b' \<and> mirrors a' b'))"
  using assms
proof (induction calls arbitrary: a b)
  case Nil
  then show ?case by simp
next
  case (Cons call calls)
  obtain c x w where call: "call = (c, x, w)" by (cases call)
  show ?case
  proof (cases "peaq_movaccum_accumulate a c x w")
    case (Inl e)
    with mirrors_accumulate [OF Cons.prems, of c x w] show ?thesis
      by (simp add: call)
  next
    case (Inr a1)
    with mirrors_accumulate [OF Cons.prems, of c x w] obtain b1 where
      b1: "peaq_movaccum_accumulate b c x w = Inr b1" and m: "mirrors a1 b1"
      by auto
    from Cons.IH [OF m] show ?thesis
      by (cases "accumulate_all a1 calls") (simp_all add: call Inr b1)
  qed
qed

lemma mirrors_get_value:
  assumes "mirrors a b"
  shows "peaq_movaccum_get_value (peaq_movaccum_set_tentative a False) =
         peaq_movaccum_get_value b"
  using assms
  by (simp add: mirrors_def peaq_movaccum_get_value_def peaq_movaccum_set_tentative_def
      split: option.splits)

text \<open>
  C2.  For an accumulator that is not in tentative state, in any mode, and any
  sequences \<open>P\<close> and \<open>T\<close> of samples: \<open>accumulate (P)\<close>, \<open>set_tentative (true)\<close>,
  \<open>accumulate (T)\<close>, \<open>set_tentative (false)\<close> gives the same \<open>get_value ()\<close>
  result (the same value or the same failure) as \<open>accumulate (P + T)\<close>.
\<close>

theorem tentative_commit_order_preserving:
  assumes "\<not> tentative acc"
  shows "tentative_run acc P T = direct_run acc (P @ T)"
proof (cases "accumulate_all acc P")
  case (Inl e)
  then show ?thesis
    by (simp add: tentative_run_def direct_run_def accumulate_all_append)
next
  case (Inr acc1)
  then have "\<not> tentative acc1" using accumulate_all_keeps assms by blast
  then have m: "mirrors (peaq_movaccum_set_tentative acc1 True) acc1"
    by (rule mirrors_set_tentative)
  show ?thesis
  proof (cases "accumulate_all (peaq_movaccum_set_tentative acc1 True) T")
    case e: (Inl e)
    with mirrors_accumulate_all [OF m, of T] have "accumulate_all acc1 T = Inl e" by simp
    then show ?thesis
      by (simp add: tentative_run_def direct_run_def accumulate_all_append Inr e)
  next
    case a2: (Inr acc2)
    with mirrors_accumulate_all [OF m, of T] obtain b2 where
      b2: "accumulate_all acc1 T = Inr b2" and m2: "mirrors acc2 b2"
      by auto
    show ?thesis
      by (simp add: tentative_run_def direct_run_def accumulate_all_append Inr a2 b2
          mirrors_get_value [OF m2])
  qed
qed

theorem tentative_commit_order_preserving_witness:
  "\<not> tentative (configured 1 MODE_AVG) \<and>
   tentative_run (configured 1 MODE_AVG) [(0, 2, 1)] [(0, 4, 1)] = Inr 3"
proof -
  have h: "\<not> tentative (configured 1 MODE_AVG)"
    by (simp add: configured_def peaq_movaccum_set_mode_def peaq_movaccum_set_channels_def
        peaq_movaccum_new_def)
  have "direct_run (configured 1 MODE_AVG) ([(0, 2, 1)] @ [(0, 4, 1)]) = Inr 3"
    by (simp add: direct_run_def configured_def peaq_movaccum_set_mode_def
        peaq_movaccum_set_channels_def peaq_movaccum_new_def peaq_movaccum_accumulate_def
        peaq_movaccum_get_value_def chan_state_init_def)
  with h tentative_commit_order_preserving [OF h, of "[(0, 2, 1)]" "[(0, 4, 1)]"]
  show ?thesis by simp
qed

section \<open>The accumulator: ADB\<close>

lemma ready_configured: "ready m C (configured C m)"
  by (simp add: ready_def configured_def peaq_movaccum_set_mode_def
      peaq_movaccum_set_channels_def peaq_movaccum_new_def)

lemma configured_committed:
  "c < C \<Longrightarrow> committed (configured C m) ! c = chan_state_init"
  by (simp add: configured_def peaq_movaccum_set_mode_def
      peaq_movaccum_set_channels_def peaq_movaccum_new_def)

lemma ready_accumulate:
  assumes "ready m C acc"
  shows "peaq_movaccum_accumulate acc c x w =
         (if c \<ge> C then Inl ChannelOutOfRange
          else Inr (acc\<lparr>committed :=
                         (committed acc)[c := accumulate_chan m (committed acc ! c) x w]\<rparr>))"
  using assms by (simp add: ready_def peaq_movaccum_accumulate_def)

lemma ready_step:
  assumes "ready m C acc" "c < C"
  shows "ready m C (acc\<lparr>committed :=
                         (committed acc)[c := accumulate_chan m (committed acc ! c) x w]\<rparr>)"
  using assms by (simp add: ready_def)

lemma sum_weighted_Cons:
  "sum_weighted c ((c', x, w) # calls) = (if c' = c then w * x else 0) + sum_weighted c calls"
  by (simp add: sum_weighted_def)

lemma sum_weights_Cons:
  "sum_weights c ((c', x, w) # calls) = (if c' = c then w else 0) + sum_weights c calls"
  by (simp add: sum_weights_def)

lemma adb_sums:
  assumes "ready MODE_ADB C acc" "accumulate_all acc calls = Inr acc'" "c < C"
  shows "ready MODE_ADB C acc' \<and>
         sum_wx (committed acc' ! c) = sum_wx (committed acc ! c) + sum_weighted c calls \<and>
         sum_w (committed acc' ! c) = sum_w (committed acc ! c) + sum_weights c calls"
  using assms
proof (induction calls arbitrary: acc)
  case Nil
  then show ?case by (simp add: sum_weighted_def sum_weights_def)
next
  case (Cons call calls)
  obtain c' x w where call: "call = (c', x, w)" by (cases call)
  define acc1 where
    "acc1 = acc\<lparr>committed :=
               (committed acc)[c' := accumulate_chan MODE_ADB (committed acc ! c') x w]\<rparr>"
  from Cons.prems(2) have c': "c' < C" and rest: "accumulate_all acc1 calls = Inr acc'"
    unfolding call acc1_def
    by (auto simp: ready_accumulate [OF Cons.prems(1)] split: if_splits)
  have r1: "ready MODE_ADB C acc1"
    unfolding acc1_def using Cons.prems(1) c' by (rule ready_step)
  have len: "length (committed acc) = C" using Cons.prems(1) by (simp add: ready_def)
  have wx1: "sum_wx (committed acc1 ! c) =
             sum_wx (committed acc ! c) + (if c' = c then w * x else 0)"
    using len Cons.prems(3) c' by (simp add: acc1_def nth_list_update)
  have w1: "sum_w (committed acc1 ! c) =
             sum_w (committed acc ! c) + (if c' = c then w else 0)"
    using len Cons.prems(3) c' by (simp add: acc1_def nth_list_update)
  from Cons.IH [OF r1 rest Cons.prems(3)] show ?case
    unfolding call sum_weighted_Cons sum_weights_Cons wx1 w1 by simp
qed

text \<open>
  C7.  An accumulator in ADB mode (configured with at least one channel, then fed
  any sequence of samples) returns from \<open>get_value ()\<close>: 0 when the total
  accumulated weight is 0; \<open>-0.5\<close> when the total weighted sum of the values is 0
  and the total weight is not; and \<open>log10 (sum (w * x) / sum (w))\<close> otherwise.  The
  sums run over the samples of channel 0, the channel ADB reads.
\<close>

theorem adb_get_value:
  assumes "0 < C" and "accumulate_all (configured C MODE_ADB) calls = Inr acc"
  shows "peaq_movaccum_get_value acc =
         Inr (if sum_weights 0 calls = 0 then 0
              else if sum_weighted 0 calls = 0 then - 0.5
              else log 10 (sum_weighted 0 calls / sum_weights 0 calls))"
proof -
  have init: "sum_wx (committed (configured C MODE_ADB) ! 0) = 0"
             "sum_w (committed (configured C MODE_ADB) ! 0) = 0"
    using assms(1) by (simp_all add: configured_committed chan_state_init_def)
  from adb_sums [OF ready_configured assms(2) assms(1)]
  have r: "ready MODE_ADB C acc"
    and wx: "sum_wx (committed acc ! 0) = sum_weighted 0 calls"
    and w: "sum_w (committed acc ! 0) = sum_weights 0 calls"
    by (simp_all add: init)
  from r have "peaq_movaccum_get_value acc = Inr (chan_value MODE_ADB (committed acc ! 0))"
    by (simp add: ready_def peaq_movaccum_get_value_def)
  then show ?thesis by (simp add: wx w)
qed

theorem adb_get_value_witness:
  "(0::nat) < 1 \<and>
   accumulate_all (configured 1 MODE_ADB) [(0, 0, 1), (0, 0, 1)] =
     Inr ((configured 1 MODE_ADB)
            \<lparr>committed := [chan_state_init\<lparr>sum_wx := 0, sum_w := 2\<rparr>]\<rparr>) \<and>
   peaq_movaccum_get_value
     ((configured 1 MODE_ADB)\<lparr>committed := [chan_state_init\<lparr>sum_wx := 0, sum_w := 2\<rparr>]\<rparr>)
     = Inr (- 0.5)"
proof -
  have h1: "(0::nat) < 1" by simp
  have h2: "accumulate_all (configured 1 MODE_ADB) [(0, 0, 1), (0, 0, 1)] =
     Inr ((configured 1 MODE_ADB)
            \<lparr>committed := [chan_state_init\<lparr>sum_wx := 0, sum_w := 2\<rparr>]\<rparr>)"
    by (simp add: configured_def peaq_movaccum_set_mode_def peaq_movaccum_set_channels_def
        peaq_movaccum_new_def peaq_movaccum_accumulate_def chan_state_init_def)
  from adb_get_value [OF h1 h2] h1 h2 show ?thesis
    by (simp add: sum_weights_def sum_weighted_def)
qed

section \<open>The accumulator: scaling the weights\<close>

lemma scaled_by_step:
  assumes m: "m = MODE_AVG \<or> m = MODE_AVG_LOG \<or> m = MODE_RMS"
    and s: "scaled_by (sum_factor m k) a b"
    and c: "c < length (committed b)"
  shows "scaled_by (sum_factor m k)
           (a\<lparr>committed := (committed a)[c := accumulate_chan m (committed a ! c) x (k * w)]\<rparr>)
           (b\<lparr>committed := (committed b)[c := accumulate_chan m (committed b ! c) x w]\<rparr>)"
proof -
  have len: "length (committed a) = length (committed b)" using s by (simp add: scaled_by_def)
  have old: "sum_wx (committed a ! i) = sum_factor m k * sum_wx (committed b ! i) \<and>
             sum_w (committed a ! i) = sum_factor m k * sum_w (committed b ! i)"
    if "i < length (committed b)" for i
    using s that by (simp add: scaled_by_def)
  have new: "sum_wx (accumulate_chan m (committed a ! c) x (k * w)) =
               sum_factor m k * sum_wx (accumulate_chan m (committed b ! c) x w) \<and>
             sum_w (accumulate_chan m (committed a ! c) x (k * w)) =
               sum_factor m k * sum_w (accumulate_chan m (committed b ! c) x w)"
    using m old [OF c] by (auto simp: sum_factor_def algebra_simps power2_eq_square)
  show ?thesis
    unfolding scaled_by_def
  proof (intro conjI allI impI)
    show "length (committed (a\<lparr>committed := (committed a)[c := accumulate_chan m (committed a ! c) x (k * w)]\<rparr>)) =
          length (committed (b\<lparr>committed := (committed b)[c := accumulate_chan m (committed b ! c) x w]\<rparr>))"
      using len by simp
  next
    fix i
    assume "i < length (committed (b\<lparr>committed := (committed b)[c := accumulate_chan m (committed b ! c) x w]\<rparr>))"
    then have i: "i < length (committed b)" by simp
    show "sum_wx (committed (a\<lparr>committed := (committed a)[c := accumulate_chan m (committed a ! c) x (k * w)]\<rparr>) ! i) =
          sum_factor m k * sum_wx (committed (b\<lparr>committed := (committed b)[c := accumulate_chan m (committed b ! c) x w]\<rparr>) ! i)"
      using i c len old [OF i] new by (cases "i = c") simp_all
    show "sum_w (committed (a\<lparr>committed := (committed a)[c := accumulate_chan m (committed a ! c) x (k * w)]\<rparr>) ! i) =
          sum_factor m k * sum_w (committed (b\<lparr>committed := (committed b)[c := accumulate_chan m (committed b ! c) x w]\<rparr>) ! i)"
      using i c len old [OF i] new by (cases "i = c") simp_all
  qed
qed

lemma scaled_by_accumulate_all:
  assumes m: "m = MODE_AVG \<or> m = MODE_AVG_LOG \<or> m = MODE_RMS"
    and "ready m C a" "ready m C b" "scaled_by (sum_factor m k) a b"
  shows "(case accumulate_all b calls of
            Inl e \<Rightarrow> accumulate_all a (scale_weights k calls) = Inl e
          | Inr b' \<Rightarrow> (\<exists>a'. accumulate_all a (scale_weights k calls) = Inr a' \<and>
                         ready m C a' \<and> ready m C b' \<and> scaled_by (sum_factor m k) a' b'))"
  using assms(2-)
proof (induction calls arbitrary: a b)
  case Nil
  then show ?case by (simp add: scale_weights_def)
next
  case (Cons call calls)
  obtain c x w where call: "call = (c, x, w)" by (cases call)
  have sc: "scale_weights k ((c, x, w) # calls) = (c, x, k * w) # scale_weights k calls"
    by (simp add: scale_weights_def)
  show ?case
  proof (cases "c \<ge> C")
    case True
    then show ?thesis
      unfolding call sc
      by (simp add: ready_accumulate [OF Cons.prems(1)] ready_accumulate [OF Cons.prems(2)])
  next
    case False
    then have c: "c < C" by simp
    then have cb: "c < length (committed b)" using Cons.prems(2) by (simp add: ready_def)
    define a1 where
      "a1 = a\<lparr>committed := (committed a)[c := accumulate_chan m (committed a ! c) x (k * w)]\<rparr>"
    define b1 where
      "b1 = b\<lparr>committed := (committed b)[c := accumulate_chan m (committed b ! c) x w]\<rparr>"
    have ra: "ready m C a1" unfolding a1_def using Cons.prems(1) c by (rule ready_step)
    have rb: "ready m C b1" unfolding b1_def using Cons.prems(2) c by (rule ready_step)
    have s1: "scaled_by (sum_factor m k) a1 b1"
      unfolding a1_def b1_def using m Cons.prems(3) cb by (rule scaled_by_step)
    have ea: "accumulate_all a (scale_weights k (call # calls)) =
              accumulate_all a1 (scale_weights k calls)"
      unfolding call sc using c by (simp add: ready_accumulate [OF Cons.prems(1)] a1_def)
    have eb: "accumulate_all b (call # calls) = accumulate_all b1 calls"
      unfolding call using c by (simp add: ready_accumulate [OF Cons.prems(2)] b1_def)
    show ?thesis unfolding ea eb by (rule Cons.IH [OF ra rb s1])
  qed
qed

lemma scaled_by_get_value:
  assumes m: "m = MODE_AVG \<or> m = MODE_AVG_LOG \<or> m = MODE_RMS"
    and "ready m C a" "ready m C b" "scaled_by (sum_factor m k) a b" "0 < k"
  shows "peaq_movaccum_get_value a = peaq_movaccum_get_value b"
proof -
  have q: "sum_factor m k \<noteq> 0" using assms(5) by (simp add: sum_factor_def)
  have len: "length (committed a) = length (committed b)"
    using assms(4) by (simp add: scaled_by_def)
  have "chan_value m (committed a ! c) = chan_value m (committed b ! c)"
    if "c < length (committed b)" for c
  proof -
    from assms(4) that have
      "sum_wx (committed a ! c) = sum_factor m k * sum_wx (committed b ! c)"
      "sum_w (committed a ! c) = sum_factor m k * sum_w (committed b ! c)"
      by (simp_all add: scaled_by_def)
    then have "sum_wx (committed a ! c) / sum_w (committed a ! c) =
               sum_wx (committed b ! c) / sum_w (committed b ! c)"
      using q by simp
    then show ?thesis using m by auto
  qed
  then have "map (chan_value m) (committed a) = map (chan_value m) (committed b)"
    using len by (intro nth_equalityI) simp_all
  then show ?thesis
    using m assms(2,3) by (auto simp: ready_def peaq_movaccum_get_value_def)
qed

lemma scaled_by_refl_configured:
  "scaled_by q (configured C m) (configured C m)"
  by (simp add: scaled_by_def configured_committed chan_state_init_def configured_def
      peaq_movaccum_set_mode_def peaq_movaccum_set_channels_def peaq_movaccum_new_def)

text \<open>
  C9.  For an accumulator in mode AVG, AVG_LOG or RMS and any finite sequence of
  samples, multiplying every weight by the same positive constant \<open>k\<close> leaves the
  result of \<open>get_value ()\<close> unchanged.
\<close>

theorem weight_scaling_invariant:
  assumes "m = MODE_AVG \<or> m = MODE_AVG_LOG \<or> m = MODE_RMS" and "0 < k"
  shows "direct_run (configured C m) (scale_weights k calls) =
         direct_run (configured C m) calls"
proof (cases "accumulate_all (configured C m) calls")
  case (Inl e)
  with scaled_by_accumulate_all
    [OF assms(1) ready_configured ready_configured scaled_by_refl_configured, of C k calls]
  show ?thesis by (simp add: direct_run_def)
next
  case (Inr b')
  with scaled_by_accumulate_all
    [OF assms(1) ready_configured ready_configured scaled_by_refl_configured, of C k calls]
  obtain a' where a': "accumulate_all (configured C m) (scale_weights k calls) = Inr a'"
    and r: "ready m C a'" "ready m C b'" "scaled_by (sum_factor m k) a' b'"
    by auto
  show ?thesis
    by (simp add: direct_run_def Inr a' scaled_by_get_value [OF assms(1) r assms(2)])
qed

theorem weight_scaling_invariant_witness:
  "(MODE_RMS = MODE_AVG \<or> MODE_RMS = MODE_AVG_LOG \<or> MODE_RMS = MODE_RMS) \<and> (0::real) < 2 \<and>
   direct_run (configured 1 MODE_RMS) (scale_weights 2 [(0, 3, 1), (0, 4, 1)]) =
   Inr (sqrt (25 / 2))"
proof -
  have h1: "MODE_RMS = MODE_AVG \<or> MODE_RMS = MODE_AVG_LOG \<or> MODE_RMS = MODE_RMS" by simp
  have h2: "(0::real) < 2" by simp
  have "direct_run (configured 1 MODE_RMS) [(0, 3, 1), (0, 4, 1)] = Inr (sqrt (25 / 2))"
    by (simp add: direct_run_def configured_def peaq_movaccum_set_mode_def
        peaq_movaccum_set_channels_def peaq_movaccum_new_def peaq_movaccum_accumulate_def
        peaq_movaccum_get_value_def chan_state_init_def)
  with weight_scaling_invariant [OF h1 h2, of 1 "[(0, 3, 1), (0, 4, 1)]"] h1 h2
  show ?thesis by simp
qed

end
